theory Spec2Isabelle
  imports Main "HOL-Library.Word" "HOL-Library.Monad_Syntax"
begin

unbundle bit_operations_syntax

text \<open>
  The Modbus slave emulator: the in-memory register store (\<open>modules/storage.js\<close>), the
  request processing of the Modbus TCP and Modbus RTU servers, the silence framer of the
  RTU server and the web form that edits registers, as functions on explicit state.
  Sockets, the serial port, timers and the files are outside: a request is the buffer
  that arrived, the persisted file is an input, and the asynchronous \<open>saveSlaves\<close> that
  follows a write, which reads the store and never changes it, is left out.
\<close>

section \<open>Node.js buffers\<close>

text \<open>
  A \<open>Buffer\<close> is a fixed-length array of bytes. Numbers read from a buffer are
  non-negative integers (\<open>nat\<close>). Every accessor of Node throws a \<open>RangeError\<close> when the
  offset leaves the buffer or the number written does not fit the field; a throw is the
  result \<open>None\<close>. A write of \<open>undefined\<close> does not throw: the value becomes \<open>NaN\<close>, which
  passes the range test and is stored as the bytes \<open>00 00\<close>.
\<close>

type_synonym byte = "8 word"
type_synonym buffer = "byte list"

text \<open>
  The elements of the \<open>registers\<close> array of a slave are JavaScript values: an integer, or
  \<open>undefined\<close> (a hole of the array, an index past its end).
\<close>

datatype jsval = Num int | Undefined

definition alloc :: "nat \<Rightarrow> buffer" where
  "alloc n = replicate n 0"

definition readUInt8 :: "buffer \<Rightarrow> nat \<Rightarrow> nat option" where
  "readUInt8 buf off = (if off < length buf then Some (unat (buf ! off)) else None)"

definition readUInt16BE :: "buffer \<Rightarrow> nat \<Rightarrow> nat option" where
  "readUInt16BE buf off =
     (if off + 2 \<le> length buf
      then Some (unat (buf ! off) * 256 + unat (buf ! (off + 1))) else None)"

definition readUInt16LE :: "buffer \<Rightarrow> nat \<Rightarrow> nat option" where
  "readUInt16LE buf off =
     (if off + 2 \<le> length buf
      then Some (unat (buf ! off) + unat (buf ! (off + 1)) * 256) else None)"

definition writeUInt8 :: "buffer \<Rightarrow> nat \<Rightarrow> nat \<Rightarrow> buffer option" where
  "writeUInt8 buf v off =
     (if v \<le> 255 \<and> off < length buf then Some (buf[off := of_nat v]) else None)"

fun writeUInt16BE :: "buffer \<Rightarrow> jsval \<Rightarrow> nat \<Rightarrow> buffer option" where
  "writeUInt16BE buf (Num v) off =
     (if 0 \<le> v \<and> v \<le> 65535 \<and> off + 2 \<le> length buf
      then Some (buf[off := of_int (v div 256), off + 1 := of_int (v mod 256)]) else None)"
| "writeUInt16BE buf Undefined off =
     (if off + 2 \<le> length buf then Some (buf[off := 0, off + 1 := 0]) else None)"

text \<open>\<open>source.copy(target, targetStart)\<close>: the bytes that fit are copied, the rest dropped.\<close>

definition copy :: "buffer \<Rightarrow> buffer \<Rightarrow> nat \<Rightarrow> buffer" where
  "copy source target targetStart =
     take targetStart target @ take (length target - targetStart) source
       @ drop (targetStart + length source) target"

section \<open>CRC-16/MODBUS (modules/modbus-rtu.js)\<close>

text \<open>
  \<open>calculateCRC\<close>: the register starts at \<open>0xFFFF\<close>; every byte is XOR-ed into it and the
  register is shifted right eight times, XOR-ing \<open>0xA001\<close> in when the bit shifted out is 1.
  JavaScript computes \<open>^\<close>, \<open>&\<close> and \<open>>>\<close> on signed 32-bit integers; the register never
  leaves \<open>0 .. 0xFFFF\<close> (lemma \<open>calculateCRC_bound\<close>), where they are the operations on
  \<open>nat\<close>.
\<close>

definition crc_shift :: "nat \<Rightarrow> nat" where
  "crc_shift crc =
     (if crc AND 0x0001 \<noteq> 0 then drop_bit 1 crc XOR 0xA001 else drop_bit 1 crc)"

primrec crc_bits :: "nat \<Rightarrow> nat \<Rightarrow> nat" where
  "crc_bits 0 crc = crc"
| "crc_bits (Suc n) crc = crc_bits n (crc_shift crc)"

fun crc_bytes :: "buffer \<Rightarrow> nat \<Rightarrow> nat" where
  "crc_bytes [] crc = crc"
| "crc_bytes (b # bs) crc = crc_bytes bs (crc_bits 8 (crc XOR unat b))"

definition calculateCRC :: "buffer \<Rightarrow> nat" where
  "calculateCRC buffer = crc_bytes buffer 0xFFFF"

definition appendCRC :: "buffer \<Rightarrow> buffer option" where
  "appendCRC bufferWithoutCRC = do {
     let crc = calculateCRC bufferWithoutCRC;
     let crcBuf = alloc 2;
     crcBuf \<leftarrow> writeUInt8 crcBuf (crc AND 0xFF) 0;
     crcBuf \<leftarrow> writeUInt8 crcBuf (drop_bit 8 crc AND 0xFF) 1;
     Some (bufferWithoutCRC @ crcBuf)
   }"

definition verifyCRC :: "buffer \<Rightarrow> bool option" where
  "verifyCRC buffer =
     (if length buffer < 3 then Some False
      else do {
        let data = take (length buffer - 2) buffer;
        receivedCrc \<leftarrow> readUInt16LE buffer (length buffer - 2);
        let calculatedCrc = calculateCRC data;
        Some (receivedCrc = calculatedCrc)
      })"

section \<open>The register store (modules/storage.js)\<close>

text \<open>
  \<open>storage.slaves\<close> is an object from slave identifiers to \<open>{ registers: [...] }\<close>.
  An assignment \<open>registers[i] = v\<close> of JavaScript replaces element \<open>i\<close> of the array, or
  extends the array with holes up to \<open>i\<close> when it is shorter; a read past the end gives
  \<open>undefined\<close>.
\<close>

record slave_device =
  registers :: "jsval list"

type_synonym slaves = "nat \<rightharpoonup> slave_device"

definition registerCount :: nat where
  "registerCount = 500"

definition array_set :: "jsval list \<Rightarrow> nat \<Rightarrow> jsval \<Rightarrow> jsval list" where
  "array_set xs i v =
     (if i < length xs then xs[i := v]
      else xs @ replicate (i - length xs) Undefined @ [v])"

definition array_get :: "jsval list \<Rightarrow> nat \<Rightarrow> jsval" where
  "array_get xs i = (if i < length xs then xs ! i else Undefined)"

definition fill_zero :: "slave_device \<Rightarrow> slave_device" where
  "fill_zero dev = dev\<lparr>registers := replicate (length (registers dev)) (Num 0)\<rparr>"

text \<open>
  \<open>Storage.initialize\<close> creates the array of every configured identifier and then merges
  the persisted file. The file is an input: \<open>None\<close> when it is missing or does not parse
  (the \<open>catch\<close> of \<open>loadSlaves\<close>), else the saved object as the list of its keys, each with
  the object stored under it, which is taken to hold an array of integers or holes
  under \<open>registers\<close>.
\<close>

definition create_slaves :: "nat list \<Rightarrow> nat \<Rightarrow> slaves \<Rightarrow> slaves" where
  "create_slaves slaveIds count sl =
     fold (\<lambda>slaveId s. s(slaveId \<mapsto> \<lparr>registers = replicate count (Num 0)\<rparr>)) slaveIds sl"

definition loadSlaves :: "(nat \<times> slave_device) list option \<Rightarrow> slaves \<Rightarrow> slaves" where
  "loadSlaves file sl =
     (case file of
        None \<Rightarrow> sl
      | Some savedSlaves \<Rightarrow>
          fold (\<lambda>(slaveId, saved) s.
                  case s slaveId of
                    None \<Rightarrow> s
                  | Some dev \<Rightarrow> s(slaveId \<mapsto> dev\<lparr>registers := registers saved\<rparr>))
               savedSlaves sl)"

definition initialize ::
  "nat list \<Rightarrow> nat \<Rightarrow> (nat \<times> slave_device) list option \<Rightarrow> slaves \<Rightarrow> slaves" where
  "initialize slaveIds count file sl = loadSlaves file (create_slaves slaveIds count sl)"

definition clearSlave :: "nat \<Rightarrow> slaves \<Rightarrow> slaves" where
  "clearSlave slaveId sl =
     (case sl slaveId of None \<Rightarrow> sl | Some dev \<Rightarrow> sl(slaveId \<mapsto> fill_zero dev))"

definition clearAllSlaves :: "slaves \<Rightarrow> slaves" where
  "clearAllSlaves sl = (\<lambda>slaveId. map_option fill_zero (sl slaveId))"

section \<open>The loops over the registers shared by both transports\<close>

text \<open>
  The read loop of function 0x03: register \<open>startAddr + i\<close>, or 0 past the last register,
  is written big-endian at \<open>base + i * 2\<close> of the response.
\<close>

function read_loop ::
  "jsval list \<Rightarrow> buffer \<Rightarrow> nat \<Rightarrow> nat \<Rightarrow> nat \<Rightarrow> nat \<Rightarrow> buffer option" where
  "read_loop regs response base startAddr quantity i =
     (if i < quantity then
        (let val = (if startAddr + i < registerCount
                    then array_get regs (startAddr + i) else Num 0)
         in case writeUInt16BE response val (base + i * 2) of
              None \<Rightarrow> None
            | Some response' \<Rightarrow> read_loop regs response' base startAddr quantity (i + 1))
      else Some response)"
  by pat_completeness auto
termination
  by (relation "measure (\<lambda>(regs, response, base, startAddr, quantity, i). quantity - i)") auto

declare read_loop.simps [simp del]

text \<open>
  The write loop of function 0x10: the value at \<open>base + i * 2\<close> of the request is stored
  at register \<open>startAddr + i\<close> when that is below \<open>registerCount\<close>. The array is mutated in
  place, so a throw would leave the registers written so far: the result is the array
  and whether the loop ran to its end.
\<close>

function write_loop ::
  "buffer \<Rightarrow> nat \<Rightarrow> nat \<Rightarrow> nat \<Rightarrow> nat \<Rightarrow> jsval list \<Rightarrow> bool \<times> jsval list" where
  "write_loop request base startAddr quantity i regs =
     (if i < quantity then
        (case readUInt16BE request (base + i * 2) of
           None \<Rightarrow> (False, regs)
         | Some v \<Rightarrow>
             write_loop request base startAddr quantity (i + 1)
               (if startAddr + i < registerCount
                then array_set regs (startAddr + i) (Num (int v)) else regs))
      else (True, regs))"
  by pat_completeness auto
termination
  by (relation "measure (\<lambda>(request, base, startAddr, quantity, i, regs). quantity - i)") auto

declare write_loop.simps [simp del]

section \<open>Modbus TCP (class ModbusTCP, MBAP framing)\<close>

text \<open>
  \<open>processRequest\<close> returns the response, or \<open>null\<close> (\<open>None\<close>): its \<open>try\<close> block turns
  every throw into \<open>null\<close>. It also mutates the store, so the model returns the response
  together with the store after the call.
\<close>

definition tcp_createExceptionResponse ::
  "nat \<Rightarrow> nat \<Rightarrow> nat \<Rightarrow> nat \<Rightarrow> nat \<Rightarrow> buffer option" where
  "tcp_createExceptionResponse transactionId protocolId unitId functionCode exceptionCode = do {
     let response = alloc 9;
     response \<leftarrow> writeUInt16BE response (Num (int transactionId)) 0;
     response \<leftarrow> writeUInt16BE response (Num (int protocolId)) 2;
     response \<leftarrow> writeUInt16BE response (Num 3) 4;
     response \<leftarrow> writeUInt8 response unitId 6;
     response \<leftarrow> writeUInt8 response (functionCode OR 0x80) 7;
     response \<leftarrow> writeUInt8 response exceptionCode 8;
     Some response
   }"

text \<open>The MBAP header in front of a response PDU (the end of \<open>processRequest\<close>).\<close>

definition tcp_response :: "nat \<Rightarrow> nat \<Rightarrow> nat \<Rightarrow> buffer \<Rightarrow> buffer option" where
  "tcp_response transactionId protocolId unitId responsePDU = do {
     let responseLength = length responsePDU + 1;
     let response = alloc (6 + responseLength);
     response \<leftarrow> writeUInt16BE response (Num (int transactionId)) 0;
     response \<leftarrow> writeUInt16BE response (Num (int protocolId)) 2;
     response \<leftarrow> writeUInt16BE response (Num (int responseLength)) 4;
     response \<leftarrow> writeUInt8 response unitId 6;
     Some (copy responsePDU response 7)
   }"

definition tcp_read_holding ::
  "slaves \<Rightarrow> slave_device \<Rightarrow> nat \<Rightarrow> nat \<Rightarrow> nat \<Rightarrow> nat \<Rightarrow> buffer \<Rightarrow> buffer option \<times> slaves" where
  "tcp_read_holding sl dev transactionId protocolId unitId functionCode pdu =
     (if length pdu < 5
      then (tcp_createExceptionResponse transactionId protocolId unitId functionCode 0x03, sl)
      else
        case (readUInt16BE pdu 1, readUInt16BE pdu 3) of
          (Some startAddr, Some quantity) \<Rightarrow>
            if quantity < 1 \<or> quantity > 125
            then (tcp_createExceptionResponse transactionId protocolId unitId functionCode 0x03, sl)
            else
              (do {
                 let byteCount = quantity * 2;
                 let responsePDU = alloc (2 + byteCount);
                 responsePDU \<leftarrow> writeUInt8 responsePDU functionCode 0;
                 responsePDU \<leftarrow> writeUInt8 responsePDU byteCount 1;
                 responsePDU \<leftarrow> read_loop (registers dev) responsePDU 2 startAddr quantity 0;
                 tcp_response transactionId protocolId unitId responsePDU
               }, sl)
        | _ \<Rightarrow> (None, sl))"

definition tcp_write_single ::
  "slaves \<Rightarrow> slave_device \<Rightarrow> nat \<Rightarrow> nat \<Rightarrow> nat \<Rightarrow> nat \<Rightarrow> buffer \<Rightarrow> buffer option \<times> slaves" where
  "tcp_write_single sl dev transactionId protocolId unitId functionCode pdu =
     (if length pdu < 5
      then (tcp_createExceptionResponse transactionId protocolId unitId functionCode 0x03, sl)
      else
        case (readUInt16BE pdu 1, readUInt16BE pdu 3) of
          (Some regAddr, Some v) \<Rightarrow>
            if regAddr < registerCount
            then (tcp_response transactionId protocolId unitId (take 5 pdu),
                  sl(unitId \<mapsto> dev\<lparr>registers := array_set (registers dev) regAddr (Num (int v))\<rparr>))
            else (tcp_createExceptionResponse transactionId protocolId unitId functionCode 0x02, sl)
        | _ \<Rightarrow> (None, sl))"

definition tcp_write_multiple ::
  "slaves \<Rightarrow> slave_device \<Rightarrow> nat \<Rightarrow> nat \<Rightarrow> nat \<Rightarrow> nat \<Rightarrow> buffer \<Rightarrow> buffer option \<times> slaves" where
  "tcp_write_multiple sl dev transactionId protocolId unitId functionCode pdu =
     (if length pdu < 6
      then (tcp_createExceptionResponse transactionId protocolId unitId functionCode 0x03, sl)
      else
        case (readUInt16BE pdu 1, readUInt16BE pdu 3, readUInt8 pdu 5) of
          (Some startAddr, Some quantity, Some byteCount) \<Rightarrow>
            if byteCount \<noteq> quantity * 2 \<or> length pdu < 6 + byteCount
            then (tcp_createExceptionResponse transactionId protocolId unitId functionCode 0x03, sl)
            else
              (case write_loop pdu 6 startAddr quantity 0 (registers dev) of
                 (finished, regs) \<Rightarrow>
                   (if finished then do {
                      let responsePDU = alloc 5;
                      responsePDU \<leftarrow> writeUInt8 responsePDU functionCode 0;
                      responsePDU \<leftarrow> writeUInt16BE responsePDU (Num (int startAddr)) 1;
                      responsePDU \<leftarrow> writeUInt16BE responsePDU (Num (int quantity)) 3;
                      tcp_response transactionId protocolId unitId responsePDU
                    } else None,
                    sl(unitId \<mapsto> dev\<lparr>registers := regs\<rparr>)))
        | _ \<Rightarrow> (None, sl))"

definition tcp_processRequest :: "slaves \<Rightarrow> buffer \<Rightarrow> buffer option \<times> slaves" where
  "tcp_processRequest sl requestBuffer =
     (if length requestBuffer < 8 then (None, sl)
      else
        case (readUInt16BE requestBuffer 0, readUInt16BE requestBuffer 2,
              readUInt16BE requestBuffer 4, readUInt8 requestBuffer 6,
              readUInt8 requestBuffer 7) of
          (Some transactionId, Some protocolId, Some len, Some unitId, Some functionCode) \<Rightarrow>
            if protocolId \<noteq> 0 then (None, sl)
            else if length requestBuffer < 6 + len then (None, sl)
            else
              (case sl unitId of
                 None \<Rightarrow>
                   (tcp_createExceptionResponse transactionId protocolId unitId functionCode 0x0B,
                    sl)
               | Some dev \<Rightarrow>
                   let pdu = drop 7 requestBuffer in
                   if functionCode = 0x03
                   then tcp_read_holding sl dev transactionId protocolId unitId functionCode pdu
                   else if functionCode = 0x06
                   then tcp_write_single sl dev transactionId protocolId unitId functionCode pdu
                   else if functionCode = 0x10
                   then tcp_write_multiple sl dev transactionId protocolId unitId functionCode pdu
                   else (tcp_createExceptionResponse transactionId protocolId unitId
                           functionCode 0x01, sl))
        | _ \<Rightarrow> (None, sl))"

section \<open>Modbus RTU (class ModbusRTU, modules/modbus-rtu.js)\<close>

text \<open>
  \<open>Buffer.from([a, b, c])\<close> keeps the low eight bits of every number and never throws.
\<close>

definition rtu_createExceptionResponse :: "nat \<Rightarrow> nat \<Rightarrow> nat \<Rightarrow> buffer option" where
  "rtu_createExceptionResponse slaveId functionCode exceptionCode =
     (let exceptionFunctionCode = functionCode OR 0x80;
          responseWithoutCRC = [of_nat slaveId, of_nat exceptionFunctionCode, of_nat exceptionCode]
      in appendCRC responseWithoutCRC)"

definition rtu_read_holding ::
  "slaves \<Rightarrow> slave_device \<Rightarrow> nat \<Rightarrow> nat \<Rightarrow> buffer \<Rightarrow> buffer option \<times> slaves" where
  "rtu_read_holding sl dev slaveId functionCode requestBuffer =
     (if length requestBuffer \<noteq> 8 then (None, sl)
      else
        case (readUInt16BE requestBuffer 2, readUInt16BE requestBuffer 4) of
          (Some startAddr, Some quantity) \<Rightarrow>
            (do {
               let byteCount = quantity * 2;
               let responseBuffer = alloc (3 + byteCount);
               responseBuffer \<leftarrow> writeUInt8 responseBuffer slaveId 0;
               responseBuffer \<leftarrow> writeUInt8 responseBuffer functionCode 1;
               responseBuffer \<leftarrow> writeUInt8 responseBuffer byteCount 2;
               responseBuffer \<leftarrow> read_loop (registers dev) responseBuffer 3 startAddr quantity 0;
               appendCRC responseBuffer
             }, sl)
        | _ \<Rightarrow> (None, sl))"

definition rtu_write_single ::
  "slaves \<Rightarrow> slave_device \<Rightarrow> nat \<Rightarrow> nat \<Rightarrow> buffer \<Rightarrow> buffer option \<times> slaves" where
  "rtu_write_single sl dev slaveId functionCode requestBuffer =
     (if length requestBuffer \<noteq> 8 then (None, sl)
      else
        case (readUInt16BE requestBuffer 2, readUInt16BE requestBuffer 4) of
          (Some regAddr, Some v) \<Rightarrow>
            (appendCRC (take 6 requestBuffer),
             if regAddr < registerCount
             then sl(slaveId \<mapsto> dev\<lparr>registers := array_set (registers dev) regAddr (Num (int v))\<rparr>)
             else sl)
        | _ \<Rightarrow> (None, sl))"

definition rtu_write_multiple ::
  "slaves \<Rightarrow> slave_device \<Rightarrow> nat \<Rightarrow> nat \<Rightarrow> buffer \<Rightarrow> buffer option \<times> slaves" where
  "rtu_write_multiple sl dev slaveId functionCode requestBuffer =
     (if length requestBuffer < 9 then (None, sl)
      else
        case (readUInt16BE requestBuffer 2, readUInt16BE requestBuffer 4,
              readUInt8 requestBuffer 6) of
          (Some startAddr, Some quantity, Some byteCount) \<Rightarrow>
            if byteCount \<noteq> quantity * 2 \<or> length requestBuffer \<noteq> 7 + byteCount + 2
            then (None, sl)
            else
              (case write_loop requestBuffer 7 startAddr quantity 0 (registers dev) of
                 (finished, regs) \<Rightarrow>
                   (if finished then do {
                      let responseWithoutCRC = alloc 6;
                      responseWithoutCRC \<leftarrow> writeUInt8 responseWithoutCRC slaveId 0;
                      responseWithoutCRC \<leftarrow> writeUInt8 responseWithoutCRC functionCode 1;
                      responseWithoutCRC \<leftarrow>
                        writeUInt16BE responseWithoutCRC (Num (int startAddr)) 2;
                      responseWithoutCRC \<leftarrow>
                        writeUInt16BE responseWithoutCRC (Num (int quantity)) 4;
                      appendCRC responseWithoutCRC
                    } else None,
                    sl(slaveId \<mapsto> dev\<lparr>registers := regs\<rparr>)))
        | _ \<Rightarrow> (None, sl))"

definition rtu_processRequest :: "slaves \<Rightarrow> buffer \<Rightarrow> buffer option \<times> slaves" where
  "rtu_processRequest sl requestBuffer =
     (if length requestBuffer < 4 then (None, sl)
      else
        case verifyCRC requestBuffer of
          None \<Rightarrow> (None, sl)
        | Some False \<Rightarrow> (None, sl)
        | Some True \<Rightarrow>
            (case (readUInt8 requestBuffer 0, readUInt8 requestBuffer 1) of
               (Some slaveId, Some functionCode) \<Rightarrow>
                 (case sl slaveId of
                    None \<Rightarrow> (None, sl)
                  | Some dev \<Rightarrow>
                      if functionCode = 0x03
                      then rtu_read_holding sl dev slaveId functionCode requestBuffer
                      else if functionCode = 0x06
                      then rtu_write_single sl dev slaveId functionCode requestBuffer
                      else if functionCode = 0x10
                      then rtu_write_multiple sl dev slaveId functionCode requestBuffer
                      else (rtu_createExceptionResponse slaveId functionCode 0x01, sl))
             | _ \<Rightarrow> (None, sl)))"

text \<open>
  The framer of \<open>start\<close>: the \<open>data\<close> handler appends the bytes to \<open>this.buffer\<close> and
  restarts the 50 ms timer; the timer's callback processes the buffer and empties it.
  The callback's result is the bytes it writes to the serial port, if any.
\<close>

record rtu_transport =
  buffer :: buffer
  frameTimeout :: bool
  port_isOpen :: bool

definition on_data :: "rtu_transport \<Rightarrow> buffer \<Rightarrow> rtu_transport" where
  "on_data t data = t\<lparr>buffer := buffer t @ data, frameTimeout := True\<rparr>"

definition on_frameTimeout ::
  "rtu_transport \<Rightarrow> slaves \<Rightarrow> buffer option \<times> rtu_transport \<times> slaves" where
  "on_frameTimeout t sl =
     (let (written, sl') =
            (if length (buffer t) \<ge> 8
             then (case rtu_processRequest sl (buffer t) of
                     (response, sl') \<Rightarrow>
                       (if response \<noteq> None \<and> port_isOpen t then response else None, sl'))
             else (None, sl))
      in (written, t\<lparr>buffer := alloc 0\<rparr>, sl'))"

section \<open>The web form (router.post of /slave/:id)\<close>

text \<open>
  A field \<open>reg<i>\<close> of the posted form is absent, or \<open>parseInt\<close> reads it as \<open>NaN\<close> or
  as an integer. \<open>parseInt\<close> of the identifier and of the group gives \<open>NaN\<close> (\<open>None\<close>) or
  an integer.
\<close>

datatype form_field = Absent | NaN | Parsed int

definition update_registers ::
  "(nat \<Rightarrow> form_field) \<Rightarrow> nat \<Rightarrow> nat \<Rightarrow> jsval list \<Rightarrow> jsval list" where
  "update_registers body base n regs =
     fold (\<lambda>i r. case body i of
                    Parsed v \<Rightarrow> array_set r (base + i) (Num (v AND 0xFFFF))
                  | _ \<Rightarrow> r)
          [0..<n] regs"

definition post_slave ::
  "slaves \<Rightarrow> int option \<Rightarrow> int option \<Rightarrow> (nat \<Rightarrow> form_field) \<Rightarrow> slaves" where
  "post_slave sl id_param group_param body =
     (case id_param of
        None \<Rightarrow> sl
      | Some slaveId \<Rightarrow>
          if slaveId < 0 then sl
          else
            (case sl (nat slaveId) of
               None \<Rightarrow> sl
             | Some dev \<Rightarrow>
                 let group = (case group_param of
                                None \<Rightarrow> 1
                              | Some g \<Rightarrow> if g < 1 \<or> g > 7 then 1 else g)
                 in if group = 1
                    then sl(nat slaveId \<mapsto>
                              dev\<lparr>registers := update_registers body 0 6 (registers dev)\<rparr>)
                    else sl(nat slaveId \<mapsto>
                              dev\<lparr>registers :=
                                    update_registers body (nat ((group - 1) * 50)) 50
                                      (registers dev)\<rparr>)))"

section \<open>The invariant of the data model\<close>

fun uint16 :: "jsval \<Rightarrow> bool" where
  "uint16 (Num v) = (0 \<le> v \<and> v \<le> 65535)"
| "uint16 Undefined = False"

definition slave_ok :: "slave_device \<Rightarrow> bool" where
  "slave_ok dev = (length (registers dev) = 500 \<and> list_all uint16 (registers dev))"

definition store_ok :: "slaves \<Rightarrow> bool" where
  "store_ok sl = (\<forall>slaveId dev. sl slaveId = Some dev \<longrightarrow> slave_ok dev)"

section \<open>The configuration of the server and notions used in the statements\<close>

text \<open>
  The entry point configures ten slaves of 500 registers each and initialises the store
  from an empty object.
\<close>

definition SLAVE_IDS :: "nat list" where
  "SLAVE_IDS = [1, 2, 3, 4, 5, 6, 7, 8, 9, 10]"

definition REGISTER_COUNT :: nat where
  "REGISTER_COUNT = 500"

definition startServer :: "(nat \<times> slave_device) list option \<Rightarrow> slaves" where
  "startServer file = initialize SLAVE_IDS REGISTER_COUNT file Map.empty"

text \<open>The two bytes \<open>appendCRC\<close> adds to a buffer.\<close>

definition crc_low :: "buffer \<Rightarrow> byte" where
  "crc_low bs = of_nat (calculateCRC bs AND 0xFF)"

definition crc_high :: "buffer \<Rightarrow> byte" where
  "crc_high bs = of_nat (drop_bit 8 (calculateCRC bs) AND 0xFF)"

text \<open>A 16-bit number as two bytes, high byte first.\<close>

definition be16 :: "nat \<Rightarrow> buffer" where
  "be16 n = [of_nat (n div 256), of_nat (n mod 256)]"

text \<open>
  The exception response to a Modbus TCP frame: the transaction identifier of the frame,
  protocol identifier 0, length 3, the unit identifier, the function code with its high
  bit set, and the exception code.
\<close>

definition tcp_exception :: "buffer \<Rightarrow> byte \<Rightarrow> buffer" where
  "tcp_exception frame code =
     take 2 frame @ [0, 0, 0, 3, frame ! 6, (frame ! 7) OR 0x80, code]"

text \<open>
  The value the read loop writes for register address \<open>a\<close>: the element of the array
  below \<open>registerCount\<close>, the number 0 from there on.
\<close>

definition read_value :: "jsval list \<Rightarrow> nat \<Rightarrow> jsval" where
  "read_value regs a = (if a < registerCount then array_get regs a else Num 0)"

text \<open>
  A frame that passes the checks \<open>processRequest\<close> makes before it looks at the unit:
  on the TCP path at least 8 bytes, protocol identifier 0 and no fewer bytes than the
  length field declares; on the RTU path at least 4 bytes and a correct CRC.
\<close>

definition tcp_framed :: "buffer \<Rightarrow> bool" where
  "tcp_framed frame =
     (8 \<le> length frame \<and> readUInt16BE frame 2 = Some 0
      \<and> (case readUInt16BE frame 4 of None \<Rightarrow> False | Some len \<Rightarrow> 6 + len \<le> length frame))"

definition rtu_framed :: "buffer \<Rightarrow> bool" where
  "rtu_framed frame = (4 \<le> length frame \<and> verifyCRC frame = Some True)"

text \<open>
  A persisted file that keeps the invariant when it is merged into a store: every array
  it holds for a configured slave has 500 elements, each an integer of 16 bits.
\<close>

definition saved_ok :: "slaves \<Rightarrow> (nat \<times> slave_device) list option \<Rightarrow> bool" where
  "saved_ok sl file =
     (case file of
        None \<Rightarrow> True
      | Some savedSlaves \<Rightarrow>
          list_all (\<lambda>(slaveId, saved). sl slaveId = None \<or> slave_ok saved) savedSlaves)"

text \<open>
  The exception code of an RTU response: its third byte, when the function code in its
  second byte has the high bit set.
\<close>

definition rtu_exception_code :: "buffer \<Rightarrow> byte option" where
  "rtu_exception_code resp =
     (if 3 \<le> length resp \<and> (resp ! 1) AND 0x80 \<noteq> 0 then Some (resp ! 2) else None)"

section \<open>Facts about the buffer accessors\<close>

lemma length_alloc: "length (alloc n) = n"
  by (simp add: alloc_def)

lemma alloc_add: "alloc (m + n) = alloc m @ alloc n"
  by (simp add: alloc_def replicate_add)

lemma alloc_2: "alloc 2 = [0, 0]"
  and alloc_5: "alloc 5 = [0, 0, 0, 0, 0]"
  and alloc_6: "alloc 6 = [0, 0, 0, 0, 0, 0]"
  and alloc_7: "alloc 7 = [0, 0, 0, 0, 0, 0, 0]"
  and alloc_9: "alloc 9 = [0, 0, 0, 0, 0, 0, 0, 0, 0]"
  by (simp_all add: alloc_def numeral_eq_Suc)

lemma take_2: "2 \<le> length xs \<Longrightarrow> take 2 xs = [xs ! 0, xs ! 1]"
  by (cases xs; cases "tl xs") (auto simp: numeral_2_eq_2)

lemma drop_7_plus: "drop (7 + n) (a # b # c # d # e # f # g # xs) = drop n xs"
proof -
  have "drop (7 + n) (a # b # c # d # e # f # g # xs)
      = drop n (drop 7 (a # b # c # d # e # f # g # xs))"
    by (simp only: drop_drop add.commute)
  then show ?thesis by simp
qed

lemma or_0x80_bound: "fc \<le> 255 \<Longrightarrow> fc OR 0x80 \<le> (255::nat)"
proof -
  assume "fc \<le> 255"
  then have "take_bit 8 fc = fc"
    by (simp add: take_bit_nat_eq_self)
  then have "take_bit 8 (fc OR 0x80) = fc OR 0x80"
    by (simp add: take_bit_nat_eq_self)
  then have "fc OR 0x80 < 2 ^ 8"
    by (metis take_bit_nat_less_exp)
  then show ?thesis by simp
qed

lemma of_nat_or_0x80: "(of_nat (unat (b::byte) OR 0x80) :: byte) = b OR 0x80"
  by (simp add: of_nat_or_eq)

text \<open>Numbers read from a buffer fit their field.\<close>

lemma readUInt8_bound: "readUInt8 buf off = Some v \<Longrightarrow> v \<le> 255"
  using unsigned_less[of "buf ! off", where 'a=nat]
  by (auto simp: readUInt8_def split: if_splits)

lemma readUInt16BE_bound: "readUInt16BE buf off = Some v \<Longrightarrow> v \<le> 65535"
  using unsigned_less[of "buf ! off", where 'a=nat]
    unsigned_less[of "buf ! (off + 1)", where 'a=nat]
  by (auto simp: readUInt16BE_def split: if_splits)

lemma readUInt8_byte: "readUInt8 buf off = Some v \<Longrightarrow> of_nat v = buf ! off"
  by (auto simp: readUInt8_def split: if_splits)

lemma readUInt16BE_be16:
  "readUInt16BE buf off = Some v \<Longrightarrow> be16 v = [buf ! off, buf ! (off + 1)]"
proof -
  assume a: "readUInt16BE buf off = Some v"
  let ?h = "buf ! off" and ?l = "buf ! (off + 1)"
  have v: "v = unat ?h * 256 + unat ?l"
    using a by (auto simp: readUInt16BE_def split: if_splits)
  have l: "unat ?l < 256"
    using unsigned_less[of ?l, where 'a=nat] by simp
  have "v div 256 = unat ?h" "v mod 256 = unat ?l"
    using l by (simp_all add: v)
  then show ?thesis
    by (simp add: be16_def)
qed

lemma readUInt16BE_drop: "readUInt16BE (drop k buf) off = readUInt16BE buf (k + off)"
  by (auto simp: readUInt16BE_def add.assoc)

lemma readUInt8_drop: "readUInt8 (drop k buf) off = readUInt8 buf (k + off)"
  by (auto simp: readUInt8_def)

lemma readUInt16BE_append:
  "length pre = k \<Longrightarrow> readUInt16BE (pre @ r) (k + off) = readUInt16BE r off"
  by (auto simp: readUInt16BE_def nth_append)

text \<open>Writing a number that was read from a buffer never throws.\<close>

lemma of_int_div_256: "(of_int (int v div 256) :: byte) = of_nat (v div 256)"
  and of_int_mod_256: "(of_int (int v mod 256) :: byte) = of_nat (v mod 256)"
proof -
  have "int v div 256 = int (v div 256)" "int v mod 256 = int (v mod 256)"
    by (simp_all add: zdiv_int zmod_int)
  then show "(of_int (int v div 256) :: byte) = of_nat (v div 256)"
    "(of_int (int v mod 256) :: byte) = of_nat (v mod 256)"
    by simp_all
qed

lemma of_int_div_nat: "0 \<le> k \<Longrightarrow> (of_int (k div 256) :: byte) = of_nat (nat k div 256)"
  and of_int_mod_nat: "0 \<le> k \<Longrightarrow> (of_int (k mod 256) :: byte) = of_nat (nat k mod 256)"
  using of_int_div_256[of "nat k"] of_int_mod_256[of "nat k"] by simp_all

lemma unat_of_int_byte: "0 \<le> v \<Longrightarrow> v < 256 \<Longrightarrow> unat (of_int v :: byte) = nat v"
  using unat_of_nat[where 'a=8, of "nat v"] by (simp add: take_bit_nat_eq_self)

lemma writeUInt16BE_result:
  assumes "uint16 val" and "off + 2 \<le> length buf"
  shows "\<exists>buf'. writeUInt16BE buf val off = Some buf' \<and> length buf' = length buf
           \<and> (\<forall>k. k \<noteq> off \<and> k \<noteq> off + 1 \<longrightarrow> buf' ! k = buf ! k)
           \<and> map_option (Num \<circ> int) (readUInt16BE buf' off) = Some val"
proof (cases val)
  case (Num v)
  then have v: "0 \<le> v" "v \<le> 65535"
    using assms(1) by simp_all
  have d: "0 \<le> v div 256" "v div 256 < 256" "0 \<le> v mod 256" "v mod 256 < 256"
    using v by simp_all
  have "0 \<le> v div 256"
    using v by (simp add: pos_imp_zdiv_nonneg_iff)
  then have "int (nat (v div 256) * 256 + nat (v mod 256)) = v"
    by simp
  then show ?thesis
    using assms(2) v d by (simp add: Num readUInt16BE_def unat_of_int_byte)
next
  case Undefined
  then show ?thesis
    using assms(1) by simp
qed

section \<open>The CRC round trip\<close>

lemma crc_shift_bound: "crc < 65536 \<Longrightarrow> crc_shift crc < 65536"
proof -
  assume a: "crc < 65536"
  have d: "drop_bit 1 crc < 32768"
    using a by (simp add: drop_bit_eq_div)
  have "take_bit 16 (drop_bit 1 crc XOR 0xA001) = drop_bit 1 crc XOR (0xA001::nat)"
    using d by (simp add: take_bit_nat_eq_self)
  then have "drop_bit 1 crc XOR (0xA001::nat) < 2 ^ 16"
    by (metis take_bit_nat_less_exp)
  then show ?thesis
    using d by (simp add: crc_shift_def)
qed

lemma crc_bits_bound: "crc < 65536 \<Longrightarrow> crc_bits n crc < 65536"
  by (induction n arbitrary: crc) (simp_all add: crc_shift_bound)

lemma xor_byte_bound: "crc < 65536 \<Longrightarrow> crc XOR unat (b :: byte) < 65536"
proof -
  assume a: "crc < 65536"
  have b: "unat b < 2 ^ 16"
    using unsigned_less[of b, where 'a=nat] by simp
  have "take_bit 16 (crc XOR unat b) = crc XOR unat b"
    using a b by (simp add: take_bit_nat_eq_self)
  then have "crc XOR unat b < 2 ^ 16"
    by (metis take_bit_nat_less_exp)
  then show ?thesis by simp
qed

lemma crc_bytes_bound: "crc < 65536 \<Longrightarrow> crc_bytes bs crc < 65536"
  by (induction bs arbitrary: crc) (simp_all add: crc_bits_bound xor_byte_bound)

lemma calculateCRC_bound: "calculateCRC bs < 65536"
  by (simp add: calculateCRC_def crc_bytes_bound)

lemma crc_split:
  assumes "crc < 65536"
  shows "crc AND 0xFF \<le> 255" and "drop_bit 8 crc AND 0xFF \<le> 255"
    and "unat (of_nat (crc AND 0xFF) :: byte)
           + unat (of_nat (drop_bit 8 crc AND 0xFF) :: byte) * 256 = crc"
proof -
  have m: "(255::nat) = mask 8"
    by (simp add: mask_eq_exp_minus_1)
  have lo: "crc AND 0xFF = crc mod 256"
    by (simp add: m take_bit_eq_mask[symmetric] take_bit_eq_mod del: mask_numeral)
  have dlt: "drop_bit 8 crc < 256"
    using assms by (simp add: drop_bit_eq_div)
  have hi: "drop_bit 8 crc AND 0xFF = crc div 256"
    using dlt
    by (simp add: m take_bit_eq_mask[symmetric] take_bit_nat_eq_self drop_bit_eq_div
        del: mask_numeral)
  show "crc AND 0xFF \<le> 255"
    by (simp add: lo)
  show "drop_bit 8 crc AND 0xFF \<le> 255"
    using dlt hi by (simp add: drop_bit_eq_div)
  have "crc div 256 < 256"
    using assms by simp
  then show "unat (of_nat (crc AND 0xFF) :: byte)
      + unat (of_nat (drop_bit 8 crc AND 0xFF) :: byte) * 256 = crc"
    using hi by (simp add: lo unat_of_nat take_bit_nat_eq_self drop_bit_eq_div)
qed

text \<open>\<open>appendCRC\<close> never throws: its two writes are of numbers below 256.\<close>

lemma appendCRC_eq: "appendCRC bs = Some (bs @ [crc_low bs, crc_high bs])"
  using crc_split(1,2)[OF calculateCRC_bound[of bs]]
  by (simp add: appendCRC_def alloc_def writeUInt8_def numeral_2_eq_2 crc_low_def
      crc_high_def Let_def)

lemma verifyCRC_append:
  "bs \<noteq> [] \<Longrightarrow> verifyCRC (bs @ [crc_low bs, crc_high bs]) = Some True"
  using crc_split(3)[OF calculateCRC_bound[of bs]]
  by (cases bs) (simp_all add: verifyCRC_def readUInt16LE_def nth_append crc_low_def crc_high_def)

text \<open>
  Claim C2, as the code has it: for every non-empty byte sequence \<open>bs\<close>, \<open>appendCRC\<close>
  returns a buffer (it does not throw) and \<open>verifyCRC\<close> of that buffer is true.
\<close>

theorem crc_round_trip: "bs \<noteq> [] \<Longrightarrow> (appendCRC bs \<bind> verifyCRC) = Some True"
  by (simp add: appendCRC_eq verifyCRC_append)

theorem crc_round_trip_witness:
  "[1, 3, 0, 0, 0, 128] \<noteq> ([] :: buffer)
   \<and> (appendCRC [1, 3, 0, 0, 0, 128] \<bind> verifyCRC) = Some True"
proof -
  have ne: "[1, 3, 0, 0, 0, 128] \<noteq> ([] :: buffer)"
    by simp
  from ne crc_round_trip [OF ne] show ?thesis
    by (rule conjI)
qed

text \<open>
  Claim C2 as stated fails at the empty byte sequence: \<open>appendCRC\<close> of it is the two bytes
  \<open>FF FF\<close>, and \<open>verifyCRC\<close> rejects every buffer shorter than three bytes.
\<close>

theorem crc_round_trip_empty: "(appendCRC [] \<bind> verifyCRC) = Some False"
  by (simp add: appendCRC_def verifyCRC_def calculateCRC_def alloc_def writeUInt8_def)
section \<open>The responses of the TCP path\<close>

lemma tcp_createExceptionResponse_eq:
  assumes "transactionId \<le> 65535" "unitId \<le> 255" "functionCode \<le> 255"
    and "exceptionCode \<le> 255"
  shows "tcp_createExceptionResponse transactionId 0 unitId functionCode exceptionCode =
     Some (be16 transactionId
           @ [0, 0, 0, 3, of_nat unitId, of_nat (functionCode OR 0x80), of_nat exceptionCode])"
  using assms or_0x80_bound[of functionCode]
  by (simp add: tcp_createExceptionResponse_def alloc_9 writeUInt8_def be16_def
      of_int_div_256 of_int_mod_256)

lemma tcp_response_eq:
  assumes "transactionId \<le> 65535" "unitId \<le> 255" "length pdu + 1 \<le> 65535"
  shows "tcp_response transactionId 0 unitId pdu =
     Some (be16 transactionId @ [0, 0] @ be16 (length pdu + 1) @ [of_nat unitId] @ pdu)"
proof -
  have a: "alloc (7 + length pdu) = [0, 0, 0, 0, 0, 0, 0] @ alloc (length pdu)"
    using alloc_add[of 7 "length pdu"] by (simp add: alloc_7)
  have n: "nat (1 + int (length pdu)) = Suc (length pdu)"
    by simp
  show ?thesis
    using assms
    by (simp add: tcp_response_def Let_def a writeUInt8_def be16_def copy_def of_int_div_256
        of_int_mod_256 of_int_div_nat of_int_mod_nat n length_alloc drop_7_plus)
qed

text \<open>The header fields of a frame of at least 8 bytes.\<close>

lemma tcp_header:
  assumes "8 \<le> length frame"
  shows "readUInt16BE frame 0 = Some (unat (frame ! 0) * 256 + unat (frame ! 1))"
    and "readUInt8 frame 6 = Some (unat (frame ! 6))"
    and "readUInt8 frame 7 = Some (unat (frame ! 7))"
  using assms by (simp_all add: readUInt16BE_def readUInt8_def)

lemma tcp_exception_response:
  assumes "8 \<le> length frame" and "code \<le> 255"
  shows "tcp_createExceptionResponse (unat (frame ! 0) * 256 + unat (frame ! 1)) 0
           (unat (frame ! 6)) (unat (frame ! 7)) code
         = Some (tcp_exception frame (of_nat code))"
proof -
  note h = tcp_header[OF assms(1)]
  have "tcp_createExceptionResponse (unat (frame ! 0) * 256 + unat (frame ! 1)) 0
           (unat (frame ! 6)) (unat (frame ! 7)) code =
     Some (be16 (unat (frame ! 0) * 256 + unat (frame ! 1))
           @ [0, 0, 0, 3, of_nat (unat (frame ! 6)), of_nat (unat (frame ! 7) OR 0x80), of_nat code])"
    using readUInt16BE_bound[OF h(1)] readUInt8_bound[OF h(2)] readUInt8_bound[OF h(3)] assms(2)
    by (rule tcp_createExceptionResponse_eq)
  then show ?thesis
    using assms(1) readUInt16BE_be16[OF h(1)]
    by (simp add: tcp_exception_def take_2 of_nat_or_0x80)
qed

text \<open>
  What \<open>processRequest\<close> does with a frame that passes the checks of the MBAP header:
  the function code selects the branch.\<close>

lemma tcp_processRequest_framed:
  assumes "8 \<le> length frame"
    and "readUInt16BE frame 2 = Some 0"
    and "readUInt16BE frame 4 = Some len" and "6 + len \<le> length frame"
  shows "tcp_processRequest sl frame =
     (let transactionId = unat (frame ! 0) * 256 + unat (frame ! 1);
          unitId = unat (frame ! 6); functionCode = unat (frame ! 7) in
      case sl unitId of
        None \<Rightarrow> (Some (tcp_exception frame 0x0B), sl)
      | Some dev \<Rightarrow>
          if functionCode = 0x03
          then tcp_read_holding sl dev transactionId 0 unitId functionCode (drop 7 frame)
          else if functionCode = 0x06
          then tcp_write_single sl dev transactionId 0 unitId functionCode (drop 7 frame)
          else if functionCode = 0x10
          then tcp_write_multiple sl dev transactionId 0 unitId functionCode (drop 7 frame)
          else (Some (tcp_exception frame 0x01), sl))"
  using assms tcp_header[OF assms(1)] tcp_exception_response[OF assms(1), of "0x0B"]
    tcp_exception_response[OF assms(1), of "0x01"]
  by (simp add: tcp_processRequest_def Let_def split: option.splits)

section \<open>Function 0x03: the read loop\<close>

lemma read_loop_inv:
  assumes ok: "\<And>j. j < quantity \<Longrightarrow> uint16 (read_value regs (startAddr + j))"
    and len: "base + 2 * quantity \<le> length response"
  shows "\<exists>r. read_loop regs response base startAddr quantity i = Some r
           \<and> length r = length response
           \<and> (\<forall>k. k < base + 2 * i \<or> base + 2 * quantity \<le> k \<longrightarrow> r ! k = response ! k)
           \<and> (\<forall>j. i \<le> j \<and> j < quantity \<longrightarrow>
                 map_option (Num \<circ> int) (readUInt16BE r (base + 2 * j))
                   = Some (read_value regs (startAddr + j)))"
  using ok len
proof (induction regs response base startAddr quantity i rule: read_loop.induct)
  case (1 regs response base startAddr quantity i)
  show ?case
  proof (cases "i < quantity")
    case False
    then show ?thesis
      by (auto simp add: read_loop.simps)
  next
    case True
    let ?val = "read_value regs (startAddr + i)"
    have u: "uint16 ?val"
      using "1.prems"(1) True by simp
    have off: "base + i * 2 + 2 \<le> length response"
      using True "1.prems"(2) by simp
    from writeUInt16BE_result[OF u off] obtain response' where
      w: "writeUInt16BE response ?val (base + i * 2) = Some response'"
      and l: "length response' = length response"
      and same: "\<forall>k. k \<noteq> base + i * 2 \<and> k \<noteq> base + i * 2 + 1
                   \<longrightarrow> response' ! k = response ! k"
      and rd: "map_option (Num \<circ> int) (readUInt16BE response' (base + i * 2)) = Some ?val"
      by blast
    have w': "writeUInt16BE response
                (if startAddr + i < registerCount then array_get regs (startAddr + i) else Num 0)
                (base + i * 2) = Some response'"
      using w by (simp add: read_value_def)
    have len': "base + 2 * quantity \<le> length response'"
      using l "1.prems"(2) by simp
    from "1.IH"[OF True refl w' "1.prems"(1) len'] obtain r where
      r: "read_loop regs response' base startAddr quantity (i + 1) = Some r"
      and rl: "length r = length response'"
      and rsame: "\<forall>k. k < base + 2 * (i + 1) \<or> base + 2 * quantity \<le> k
                    \<longrightarrow> r ! k = response' ! k"
      and rval: "\<forall>j. i + 1 \<le> j \<and> j < quantity \<longrightarrow>
                 map_option (Num \<circ> int) (readUInt16BE r (base + 2 * j))
                   = Some (read_value regs (startAddr + j))"
      by blast
    have eq: "read_loop regs response base startAddr quantity i = Some r"
      using True w' r by (subst read_loop.simps) (simp add: Let_def)
    have p1: "\<forall>k. k < base + 2 * i \<or> base + 2 * quantity \<le> k \<longrightarrow> r ! k = response ! k"
      using rsame same True by auto
    have "readUInt16BE r (base + 2 * i) = readUInt16BE response' (base + i * 2)"
      using rl rsame by (simp add: readUInt16BE_def mult.commute)
    then have p2i: "map_option (Num \<circ> int) (readUInt16BE r (base + 2 * i)) = Some ?val"
      using rd by simp
    have p2: "\<forall>j. i \<le> j \<and> j < quantity \<longrightarrow>
                 map_option (Num \<circ> int) (readUInt16BE r (base + 2 * j))
                   = Some (read_value regs (startAddr + j))"
    proof (intro allI impI)
      fix j assume "i \<le> j \<and> j < quantity"
      then consider "j = i" | "i + 1 \<le> j \<and> j < quantity"
        by linarith
      then show "map_option (Num \<circ> int) (readUInt16BE r (base + 2 * j))
                   = Some (read_value regs (startAddr + j))"
        using p2i rval by cases auto
    qed
    show ?thesis
      using eq rl l p1 p2 by simp
  qed
qed

text \<open>
  The read loop succeeds when every register it reads holds an integer of 16 bits, as
  all registers do under the invariant of the data model.
\<close>

lemma read_value_ok:
  assumes "\<forall>i<quantity. startAddr + i < 500
             \<longrightarrow> uint16 (array_get regs (startAddr + i))"
  shows "j < quantity \<Longrightarrow> uint16 (read_value regs (startAddr + j))"
    and "read_value regs a = (if a < 500 then array_get regs a else Num 0)"
  using assms by (auto simp: read_value_def registerCount_def)

lemma slave_ok_array_get:
  assumes "slave_ok dev"
  shows "\<forall>i<quantity. startAddr + i < 500
           \<longrightarrow> uint16 (array_get (registers dev) (startAddr + i))"
  using assms by (auto simp: slave_ok_def array_get_def list_all_length)

lemma tcp_read_holding_response:
  assumes len: "12 \<le> length frame"
    and addr: "readUInt16BE frame 8 = Some startAddr"
    and qty: "readUInt16BE frame 10 = Some quantity"
    and q: "1 \<le> quantity" "quantity \<le> 125"
    and dev: "\<forall>i<quantity. startAddr + i < 500
                \<longrightarrow> uint16 (array_get (registers dev) (startAddr + i))"
  shows "\<exists>resp. tcp_read_holding sl dev (unat (frame ! 0) * 256 + unat (frame ! 1)) 0
                  (unat (frame ! 6)) 3 (drop 7 frame) = (Some resp, sl)
           \<and> length resp = 9 + 2 * quantity
           \<and> take 9 resp = take 2 frame @ [0, 0] @ be16 (3 + 2 * quantity)
                              @ [frame ! 6, 3, of_nat (2 * quantity)]
           \<and> (\<forall>i<quantity. map_option (Num \<circ> int) (readUInt16BE resp (9 + 2 * i))
                 = Some (if startAddr + i < 500 then array_get (registers dev) (startAddr + i)
                         else Num 0))"
proof -
  let ?tid = "unat (frame ! 0) * 256 + unat (frame ! 1)" and ?unit = "unat (frame ! 6)"
  have len8: "8 \<le> length frame" using len by simp
  note h = tcp_header[OF len8]
  let ?pdu1 = "(alloc (2 + quantity * 2))[0 := 3]"
  let ?pdu0 = "?pdu1[1 := of_nat (quantity * 2)]"
  have w1: "writeUInt8 (alloc (2 + quantity * 2)) 3 0 = Some ?pdu1"
    by (simp add: writeUInt8_def length_alloc)
  have w2: "writeUInt8 ?pdu1 (quantity * 2) 1 = Some ?pdu0"
    using q by (simp add: writeUInt8_def length_alloc)
  have l0: "2 + 2 * quantity \<le> length ?pdu0"
    by (simp add: length_alloc)
  from read_loop_inv[of quantity "registers dev" startAddr 2 ?pdu0 0,
      OF read_value_ok(1)[OF dev] l0]
  obtain r where r: "read_loop (registers dev) ?pdu0 2 startAddr quantity 0 = Some r"
    and rl: "length r = length ?pdu0"
    and rsame: "\<forall>k. k < 2 + 2 * 0 \<or> 2 + 2 * quantity \<le> k \<longrightarrow> r ! k = ?pdu0 ! k"
    and rval: "\<forall>j. 0 \<le> j \<and> j < quantity \<longrightarrow>
                 map_option (Num \<circ> int) (readUInt16BE r (2 + 2 * j))
                   = Some (read_value (registers dev) (startAddr + j))"
    by blast
  have rl': "length r = 2 + 2 * quantity"
    using rl by (simp add: length_alloc)
  have r0: "r ! 0 = 3" "r ! 1 = of_nat (2 * quantity)"
    using rsame by (simp_all add: length_alloc mult.commute)
  let ?resp = "be16 ?tid @ [0, 0] @ be16 (length r + 1) @ [of_nat ?unit] @ r"
  have resp: "tcp_response ?tid 0 ?unit r = Some ?resp"
    using readUInt16BE_bound[OF h(1)] readUInt8_bound[OF h(2)] q rl'
    by (intro tcp_response_eq) simp_all
  have pl: "\<not> length (drop 7 frame) < 5"
    using len by simp
  have all: "tcp_read_holding sl dev ?tid 0 ?unit 3 (drop 7 frame) = (Some ?resp, sl)"
    unfolding tcp_read_holding_def
    using pl addr qty q w1 w2 r resp
    by (simp add: readUInt16BE_drop Let_def)
  have t2: "be16 ?tid = take 2 frame"
    using readUInt16BE_be16[OF h(1)] len by (simp add: take_2)
  have r2: "take 2 r = [3, of_nat (2 * quantity)]"
    using r0 rl' by (simp add: take_2)
  have t9: "take 9 ?resp = take 2 frame @ [0, 0] @ be16 (3 + 2 * quantity)
                              @ [frame ! 6, 3, of_nat (2 * quantity)]"
    using rl' r2 by (simp add: t2[symmetric] be16_def)
  have vals: "\<forall>i<quantity. map_option (Num \<circ> int) (readUInt16BE ?resp (9 + 2 * i))
                 = Some (if startAddr + i < 500 then array_get (registers dev) (startAddr + i)
                         else Num 0)"
  proof (intro allI impI)
    fix i assume i: "i < quantity"
    have "readUInt16BE ?resp (7 + (2 + 2 * i)) = readUInt16BE r (2 + 2 * i)"
      using readUInt16BE_append[of
          "be16 ?tid @ [0, 0] @ be16 (length r + 1) @ [of_nat ?unit]" 7 r "2 + 2 * i"]
      by (simp add: be16_def)
    then have e: "readUInt16BE ?resp (9 + 2 * i) = readUInt16BE r (2 + 2 * i)"
      by (simp add: add.assoc)
    have "map_option (Num \<circ> int) (readUInt16BE r (2 + 2 * i))
            = Some (read_value (registers dev) (startAddr + i))"
      using rval i by blast
    then show "map_option (Num \<circ> int) (readUInt16BE ?resp (9 + 2 * i))
                 = Some (if startAddr + i < 500 then array_get (registers dev) (startAddr + i)
                         else Num 0)"
      unfolding e read_value_ok(2)[OF dev] .
  qed
  have "length ?resp = 9 + 2 * quantity"
    using rl' by (simp add: be16_def)
  then show ?thesis
    using all t9 vals by blast
qed

section \<open>The RTU path\<close>


lemma verifyCRC_True:
  assumes "verifyCRC frame = Some True"
  shows "3 \<le> length frame"
    and "appendCRC (take (length frame - 2) frame) = Some frame"
proof -
  show l: "3 \<le> length frame"
    using assms by (auto simp: verifyCRC_def split: if_splits)
  define n where "n = length frame - 2"
  define data where "data = take n frame"
  have n: "n + 2 = length frame" using l by (simp add: n_def)
  have rd: "unat (frame ! n) + unat (frame ! (n + 1)) * 256 = calculateCRC data"
    using assms l n by (simp add: verifyCRC_def readUInt16LE_def Let_def n_def[symmetric] data_def[symmetric] split: if_splits)
  have lo: "unat (frame ! n) < 256" and hi: "unat (frame ! (n + 1)) < 256"
    using unsigned_less[of "frame ! n", where 'a=nat]
      unsigned_less[of "frame ! (n + 1)", where 'a=nat] by simp_all
  have s: "unat (crc_low data) + unat (crc_high data) * 256 = calculateCRC data"
    using crc_split(3)[OF calculateCRC_bound[of data]] by (simp add: crc_low_def crc_high_def)
  have lo': "unat (crc_low data) < 256" and hi': "unat (crc_high data) < 256"
    using unsigned_less[of "crc_low data", where 'a=nat]
      unsigned_less[of "crc_high data", where 'a=nat] by simp_all
  have "unat (frame ! n) = unat (crc_low data) \<and> unat (frame ! (n + 1)) = unat (crc_high data)"
  proof -
    have "calculateCRC data mod 256 = unat (frame ! n)"
      and "calculateCRC data div 256 = unat (frame ! (n + 1))"
      using lo by (simp_all add: rd[symmetric])
    moreover have "calculateCRC data mod 256 = unat (crc_low data)"
      and "calculateCRC data div 256 = unat (crc_high data)"
      using lo' by (simp_all add: s[symmetric])
    ultimately show ?thesis by simp
  qed
  then have b: "frame ! n = crc_low data" "frame ! (n + 1) = crc_high data"
    by (simp_all add: word_unat_eq_iff)
  have "drop n frame = [frame ! n, frame ! (n + 1)]"
  proof -
    have "n < length frame" and "Suc n < length frame"
      using n by simp_all
    then have "drop n frame = frame ! n # drop (Suc n) frame"
      and "drop (Suc n) frame = frame ! Suc n # drop (Suc (Suc n)) frame"
      by (simp_all only: Cons_nth_drop_Suc)
    moreover have "drop (Suc (Suc n)) frame = []"
      using n by simp
    ultimately show ?thesis by simp
  qed
  then have "frame = data @ [crc_low data, crc_high data]"
    using b append_take_drop_id[of n frame] by (simp add: data_def)
  then show "appendCRC (take (length frame - 2) frame) = Some frame"
    using appendCRC_eq[of data] by (simp add: data_def n_def)
qed

lemma rtu_header:
  assumes "2 \<le> length frame"
  shows "readUInt8 frame 0 = Some (unat (frame ! 0))"
    and "readUInt8 frame 1 = Some (unat (frame ! 1))"
  using assms by (auto simp: readUInt8_def)

text \<open>What \<open>processRequest\<close> does with a frame of at least 4 bytes whose CRC is right.\<close>

lemma rtu_processRequest_valid:
  assumes "4 \<le> length frame" and "verifyCRC frame = Some True"
  shows "rtu_processRequest sl frame =
     (let slaveId = unat (frame ! 0); functionCode = unat (frame ! 1) in
      case sl slaveId of
        None \<Rightarrow> (None, sl)
      | Some dev \<Rightarrow>
          if functionCode = 0x03 then rtu_read_holding sl dev slaveId functionCode frame
          else if functionCode = 0x06 then rtu_write_single sl dev slaveId functionCode frame
          else if functionCode = 0x10 then rtu_write_multiple sl dev slaveId functionCode frame
          else (rtu_createExceptionResponse slaveId functionCode 0x01, sl))"
  using assms rtu_header[of frame] by (simp add: rtu_processRequest_def Let_def)

lemma rtu_read_holding_response:
  assumes len: "length frame = 8"
    and addr: "readUInt16BE frame 2 = Some startAddr"
    and qty: "readUInt16BE frame 4 = Some quantity"
    and q: "quantity \<le> 127"
    and dev: "\<forall>i<quantity. startAddr + i < 500
                \<longrightarrow> uint16 (array_get (registers dev) (startAddr + i))"
  shows "\<exists>resp. rtu_read_holding sl dev (unat (frame ! 0)) 3 frame = (Some resp, sl)
           \<and> length resp = 5 + 2 * quantity
           \<and> take 3 resp = [frame ! 0, 3, of_nat (2 * quantity)]
           \<and> verifyCRC resp = Some True
           \<and> (\<forall>i<quantity. map_option (Num \<circ> int) (readUInt16BE resp (3 + 2 * i))
                 = Some (if startAddr + i < 500 then array_get (registers dev) (startAddr + i)
                         else Num 0))"
proof -
  let ?id = "unat (frame ! 0)"
  have id: "?id \<le> 255"
    using unsigned_less[of "frame ! 0", where 'a=nat] by simp
  let ?b1 = "(alloc (3 + quantity * 2))[0 := frame ! 0]"
  let ?b2 = "?b1[1 := 3]"
  let ?b3 = "?b2[2 := of_nat (quantity * 2)]"
  have w1: "writeUInt8 (alloc (3 + quantity * 2)) ?id 0 = Some ?b1"
    using id by (simp add: writeUInt8_def length_alloc)
  have w2: "writeUInt8 ?b1 3 1 = Some ?b2"
    by (simp add: writeUInt8_def length_alloc)
  have w3: "writeUInt8 ?b2 (quantity * 2) 2 = Some ?b3"
    using q by (simp add: writeUInt8_def length_alloc)
  have l0: "3 + 2 * quantity \<le> length ?b3"
    by (simp add: length_alloc)
  from read_loop_inv[of quantity "registers dev" startAddr 3 ?b3 0,
      OF read_value_ok(1)[OF dev] l0]
  obtain r where r: "read_loop (registers dev) ?b3 3 startAddr quantity 0 = Some r"
    and rl: "length r = length ?b3"
    and rsame: "\<forall>k. k < 3 + 2 * 0 \<or> 3 + 2 * quantity \<le> k \<longrightarrow> r ! k = ?b3 ! k"
    and rval: "\<forall>j. 0 \<le> j \<and> j < quantity \<longrightarrow>
                 map_option (Num \<circ> int) (readUInt16BE r (3 + 2 * j))
                   = Some (read_value (registers dev) (startAddr + j))"
    by blast
  have rl': "length r = 3 + 2 * quantity"
    using rl by (simp add: length_alloc)
  have r0: "r ! 0 = frame ! 0" "r ! 1 = 3" "r ! 2 = of_nat (2 * quantity)"
    using rsame by (simp_all add: length_alloc mult.commute)
  let ?resp = "r @ [crc_low r, crc_high r]"
  have all: "rtu_read_holding sl dev ?id 3 frame = (Some ?resp, sl)"
    unfolding rtu_read_holding_def
    using len addr qty w1 w2 w3 r
    by (simp add: Let_def appendCRC_eq)
  have ne: "r \<noteq> []"
    using rl' by auto
  have t3: "take 3 ?resp = [frame ! 0, 3, of_nat (2 * quantity)]"
    using r0 rl' by (intro nth_equalityI) (auto simp: less_Suc_eq numeral_3_eq_3 numeral_2_eq_2 nth_append)
  have vals: "\<forall>i<quantity. map_option (Num \<circ> int) (readUInt16BE ?resp (3 + 2 * i))
                 = Some (if startAddr + i < 500 then array_get (registers dev) (startAddr + i)
                         else Num 0)"
  proof (intro allI impI)
    fix i assume i: "i < quantity"
    have e: "readUInt16BE ?resp (3 + 2 * i) = readUInt16BE r (3 + 2 * i)"
      using i rl' by (simp add: readUInt16BE_def nth_append)
    have "map_option (Num \<circ> int) (readUInt16BE r (3 + 2 * i))
            = Some (read_value (registers dev) (startAddr + i))"
      using rval i by blast
    then show "map_option (Num \<circ> int) (readUInt16BE ?resp (3 + 2 * i))
                 = Some (if startAddr + i < 500 then array_get (registers dev) (startAddr + i)
                         else Num 0)"
      unfolding e read_value_ok(2)[OF dev] .
  qed
  have "length ?resp = 5 + 2 * quantity"
    using rl' by simp
  then show ?thesis
    using all t3 vals verifyCRC_append[OF ne] by blast
qed

section \<open>Evaluation on concrete frames\<close>

lemma crc_bits_8:
  "crc_bits 8 crc =
     crc_shift (crc_shift (crc_shift (crc_shift (crc_shift (crc_shift (crc_shift
       (crc_shift crc)))))))"
  by (simp add: numeral_eq_Suc)

lemmas crc_eval = verifyCRC_def readUInt16LE_def calculateCRC_def crc_shift_def crc_bits_8

lemma startServer_None:
  "startServer None 1 = Some \<lparr>registers = replicate 500 (Num 0)\<rparr>"
  "startServer None 99 = None"
  by (simp_all add: startServer_def initialize_def loadSlaves_def create_slaves_def
      SLAVE_IDS_def REGISTER_COUNT_def)

lemma slave_ok_zero: "slave_ok \<lparr>registers = replicate 500 (Num 0)\<rparr>"
  by (simp add: slave_ok_def list_all_length)

section \<open>Frames that pass the framing checks\<close>

lemma tcp_framed_processRequest:
  assumes "tcp_framed frame"
  shows "tcp_processRequest sl frame =
     (let transactionId = unat (frame ! 0) * 256 + unat (frame ! 1);
          unitId = unat (frame ! 6); functionCode = unat (frame ! 7) in
      case sl unitId of
        None \<Rightarrow> (Some (tcp_exception frame 0x0B), sl)
      | Some dev \<Rightarrow>
          if functionCode = 0x03
          then tcp_read_holding sl dev transactionId 0 unitId functionCode (drop 7 frame)
          else if functionCode = 0x06
          then tcp_write_single sl dev transactionId 0 unitId functionCode (drop 7 frame)
          else if functionCode = 0x10
          then tcp_write_multiple sl dev transactionId 0 unitId functionCode (drop 7 frame)
          else (Some (tcp_exception frame 0x01), sl))"
proof -
  from assms obtain len where "8 \<le> length frame" "readUInt16BE frame 2 = Some 0"
    "readUInt16BE frame 4 = Some len" "6 + len \<le> length frame"
    by (auto simp: tcp_framed_def split: option.splits)
  then show ?thesis
    by (rule tcp_processRequest_framed)
qed

lemma readUInt8_Some: "readUInt8 buf off = Some v \<Longrightarrow> v = unat (buf ! off) \<and> off < length buf"
  by (auto simp: readUInt8_def split: if_splits)

lemma readUInt16BE_Some: "readUInt16BE buf off = Some v \<Longrightarrow> off + 2 \<le> length buf"
  by (auto simp: readUInt16BE_def split: if_splits)

section \<open>Frames addressed to a unit that is not configured\<close>

lemma tcp_unknown_unit:
  assumes "tcp_framed frame" and "readUInt8 frame 6 = Some unitId" and "sl unitId = None"
  shows "tcp_processRequest sl frame = (Some (tcp_exception frame 0x0B), sl)"
  using assms(3) readUInt8_Some[OF assms(2)]
  by (simp add: tcp_framed_processRequest[OF assms(1)])

lemma rtu_unknown_slave:
  assumes "readUInt8 frame 0 = Some slaveId" and "sl slaveId = None"
  shows "rtu_processRequest sl frame = (None, sl)"
  using assms by (simp add: rtu_processRequest_def split: option.splits bool.splits)

text \<open>
  Claim C3. A TCP frame that passes the framing checks and names a unit that is not
  configured is answered with the exception response of code 0x0B: the transaction
  identifier of the request, the function code of the request with its high bit set.
  An RTU frame whose slave is not configured gets no response. Neither changes the store.
\<close>

theorem unknown_unit:
  "(tcp_framed tcpFrame \<and> readUInt8 tcpFrame 6 = Some unitId \<and> sl unitId = None
      \<longrightarrow> tcp_processRequest sl tcpFrame = (Some (tcp_exception tcpFrame 0x0B), sl))
   \<and> (readUInt8 rtuFrame 0 = Some slaveId \<and> sl slaveId = None
      \<longrightarrow> rtu_processRequest sl rtuFrame = (None, sl))"
  using tcp_unknown_unit rtu_unknown_slave by blast

theorem unknown_unit_witness:
  "tcp_processRequest (startServer None) [0, 1, 0, 0, 0, 6, 99, 3, 0, 0, 0, 1]
     = (Some [0, 1, 0, 0, 0, 3, 99, 0x83, 0x0B], startServer None)
   \<and> rtu_processRequest (startServer None) [99, 3, 0, 0, 0, 1, 140, 72]
     = (None, startServer None)"
proof -
  let ?tcp = "[0, 1, 0, 0, 0, 6, 99, 3, 0, 0, 0, 1] :: buffer"
  let ?rtu = "[99, 3, 0, 0, 0, 1, 140, 72] :: buffer"
  have t: "tcp_framed ?tcp" "readUInt8 ?tcp 6 = Some 99"
    by (simp_all add: tcp_framed_def readUInt16BE_def readUInt8_def)
  have r: "readUInt8 ?rtu 0 = Some 99"
    by (simp add: readUInt8_def)
  have "tcp_processRequest (startServer None) ?tcp
          = (Some (tcp_exception ?tcp 0x0B), startServer None)
        \<and> rtu_processRequest (startServer None) ?rtu = (None, startServer None)"
    using unknown_unit[of ?tcp 99 "startServer None" ?rtu 99] t r startServer_None(2)
    by blast
  then show ?thesis
    by (simp only: tcp_exception_def) simp
qed

section \<open>Function 0x03, Read Holding Registers\<close>

lemma tcp_read_request:
  assumes f: "tcp_framed frame"
    and unit: "readUInt8 frame 6 = Some unitId" "sl unitId = Some dev"
    and fc: "readUInt8 frame 7 = Some 3"
  shows "tcp_processRequest sl frame =
           tcp_read_holding sl dev (unat (frame ! 0) * 256 + unat (frame ! 1)) 0
             (unat (frame ! 6)) 3 (drop 7 frame)"
  using unit(2) readUInt8_Some[OF unit(1)] readUInt8_Some[OF fc]
  by (simp add: tcp_framed_processRequest[OF f])

lemma rtu_read_request:
  assumes f: "rtu_framed frame"
    and unit: "readUInt8 frame 0 = Some unitId" "sl unitId = Some dev"
    and fc: "readUInt8 frame 1 = Some 3"
  shows "rtu_processRequest sl frame = rtu_read_holding sl dev (unat (frame ! 0)) 3 frame"
  using f unit(2) readUInt8_Some[OF unit(1)] readUInt8_Some[OF fc]
  by (simp add: rtu_framed_def rtu_processRequest_valid)

lemma read_loop_throws:
  assumes "i < quantity" and "read_value regs (startAddr + i) = Num v" and "65535 < v"
  shows "read_loop regs response base startAddr quantity i = None"
  using assms by (subst read_loop.simps) (simp add: read_value_def)

text \<open>
  Claim C1, as the code has it. A 0x03 request for \<open>quantity\<close> registers from
  \<open>startAddr\<close>, addressed to a configured slave, every register it reads (those from
  \<open>startAddr\<close> on that are below 500) holding an integer of 16 bits, is answered with a
  success response whatever \<open>startAddr\<close> is, when \<open>quantity\<close> is one the transport
  answers (1 to 125 on TCP, at most 127 on RTU). After its header (nine bytes on TCP,
  three on RTU) the response holds exactly \<open>quantity\<close> big-endian 16-bit values (and on
  RTU the two bytes of a correct CRC); value \<open>i\<close> is register \<open>startAddr + i\<close> when that
  is below 500 and 0 otherwise. The store is unchanged.
\<close>

theorem read_holding_registers:
  "(tcp_framed tcpFrame \<and> readUInt8 tcpFrame 6 = Some unitId \<and> sl unitId = Some dev
      \<and> readUInt8 tcpFrame 7 = Some 3
      \<and> readUInt16BE tcpFrame 8 = Some startAddr \<and> readUInt16BE tcpFrame 10 = Some quantity
      \<and> 1 \<le> quantity \<and> quantity \<le> 125
      \<and> (\<forall>i<quantity. startAddr + i < 500
             \<longrightarrow> uint16 (array_get (registers dev) (startAddr + i)))
    \<longrightarrow> (\<exists>resp. tcp_processRequest sl tcpFrame = (Some resp, sl)
           \<and> length resp = 9 + 2 * quantity
           \<and> take 9 resp = take 2 tcpFrame @ [0, 0] @ be16 (3 + 2 * quantity)
                              @ [tcpFrame ! 6, 3, of_nat (2 * quantity)]
           \<and> (\<forall>i<quantity. map_option (Num \<circ> int) (readUInt16BE resp (9 + 2 * i))
                 = Some (if startAddr + i < 500 then array_get (registers dev) (startAddr + i)
                         else Num 0))))
   \<and> (rtu_framed rtuFrame \<and> length rtuFrame = 8 \<and> readUInt8 rtuFrame 0 = Some unitId
      \<and> sl unitId = Some dev \<and> readUInt8 rtuFrame 1 = Some 3
      \<and> readUInt16BE rtuFrame 2 = Some startAddr \<and> readUInt16BE rtuFrame 4 = Some quantity
      \<and> quantity \<le> 127
      \<and> (\<forall>i<quantity. startAddr + i < 500
             \<longrightarrow> uint16 (array_get (registers dev) (startAddr + i)))
    \<longrightarrow> (\<exists>resp. rtu_processRequest sl rtuFrame = (Some resp, sl)
           \<and> length resp = 5 + 2 * quantity
           \<and> take 3 resp = [rtuFrame ! 0, 3, of_nat (2 * quantity)]
           \<and> verifyCRC resp = Some True
           \<and> (\<forall>i<quantity. map_option (Num \<circ> int) (readUInt16BE resp (3 + 2 * i))
                 = Some (if startAddr + i < 500 then array_get (registers dev) (startAddr + i)
                         else Num 0))))"
proof (intro conjI impI)
  assume a: "tcp_framed tcpFrame \<and> readUInt8 tcpFrame 6 = Some unitId \<and> sl unitId = Some dev
      \<and> readUInt8 tcpFrame 7 = Some 3
      \<and> readUInt16BE tcpFrame 8 = Some startAddr \<and> readUInt16BE tcpFrame 10 = Some quantity
      \<and> 1 \<le> quantity \<and> quantity \<le> 125
      \<and> (\<forall>i<quantity. startAddr + i < 500
             \<longrightarrow> uint16 (array_get (registers dev) (startAddr + i)))"
  then have len: "12 \<le> length tcpFrame"
    using readUInt16BE_Some[of tcpFrame 10 quantity] by simp
  have ok: "\<forall>i<quantity. startAddr + i < 500
              \<longrightarrow> uint16 (array_get (registers dev) (startAddr + i))"
    using a by blast
  have e: "tcp_processRequest sl tcpFrame =
           tcp_read_holding sl dev (unat (tcpFrame ! 0) * 256 + unat (tcpFrame ! 1)) 0
             (unat (tcpFrame ! 6)) 3 (drop 7 tcpFrame)"
    using a by (intro tcp_read_request[of tcpFrame unitId sl dev]) simp_all
  have addr: "readUInt16BE tcpFrame 8 = Some startAddr"
    and qty: "readUInt16BE tcpFrame 10 = Some quantity"
    and q: "1 \<le> quantity" "quantity \<le> 125"
    using a by simp_all
  show "\<exists>resp. tcp_processRequest sl tcpFrame = (Some resp, sl)
           \<and> length resp = 9 + 2 * quantity
           \<and> take 9 resp = take 2 tcpFrame @ [0, 0] @ be16 (3 + 2 * quantity)
                              @ [tcpFrame ! 6, 3, of_nat (2 * quantity)]
           \<and> (\<forall>i<quantity. map_option (Num \<circ> int) (readUInt16BE resp (9 + 2 * i))
                 = Some (if startAddr + i < 500 then array_get (registers dev) (startAddr + i)
                         else Num 0))"
    unfolding e by (rule tcp_read_holding_response[OF len addr qty q ok])
next
  assume a: "rtu_framed rtuFrame \<and> length rtuFrame = 8 \<and> readUInt8 rtuFrame 0 = Some unitId
      \<and> sl unitId = Some dev \<and> readUInt8 rtuFrame 1 = Some 3
      \<and> readUInt16BE rtuFrame 2 = Some startAddr \<and> readUInt16BE rtuFrame 4 = Some quantity
      \<and> quantity \<le> 127
      \<and> (\<forall>i<quantity. startAddr + i < 500
             \<longrightarrow> uint16 (array_get (registers dev) (startAddr + i)))"
  have ok: "\<forall>i<quantity. startAddr + i < 500
              \<longrightarrow> uint16 (array_get (registers dev) (startAddr + i))"
    using a by blast
  have e: "rtu_processRequest sl rtuFrame
             = rtu_read_holding sl dev (unat (rtuFrame ! 0)) 3 rtuFrame"
    using a by (intro rtu_read_request[of rtuFrame unitId sl dev]) simp_all
  have len: "length rtuFrame = 8"
    and addr: "readUInt16BE rtuFrame 2 = Some startAddr"
    and qty: "readUInt16BE rtuFrame 4 = Some quantity"
    and q: "quantity \<le> 127"
    using a by simp_all
  show "\<exists>resp. rtu_processRequest sl rtuFrame = (Some resp, sl)
           \<and> length resp = 5 + 2 * quantity
           \<and> take 3 resp = [rtuFrame ! 0, 3, of_nat (2 * quantity)]
           \<and> verifyCRC resp = Some True
           \<and> (\<forall>i<quantity. map_option (Num \<circ> int) (readUInt16BE resp (3 + 2 * i))
                 = Some (if startAddr + i < 500 then array_get (registers dev) (startAddr + i)
                         else Num 0))"
    unfolding e by (rule rtu_read_holding_response[OF len addr qty q ok])
qed

text \<open>
  A read of three registers from address 499 of slave 1, whose register 499 holds 7 and
  whose other registers hold 0, on both transports: the responses have 15 and 11 bytes
  and carry the values 7, 0, 0.
\<close>

theorem read_holding_registers_witness:
  "(\<exists>resp. tcp_processRequest
             ((startServer None)(1 \<mapsto> \<lparr>registers = (replicate 500 (Num 0))[499 := Num 7]\<rparr>))
             [0, 1, 0, 0, 0, 6, 1, 3, 1, 243, 0, 3]
             = (Some resp,
                (startServer None)(1 \<mapsto> \<lparr>registers = (replicate 500 (Num 0))[499 := Num 7]\<rparr>))
          \<and> length resp = 15 \<and> readUInt16BE resp 9 = Some 7
          \<and> readUInt16BE resp 11 = Some 0 \<and> readUInt16BE resp 13 = Some 0)
   \<and> (\<exists>resp. rtu_processRequest
             ((startServer None)(1 \<mapsto> \<lparr>registers = (replicate 500 (Num 0))[499 := Num 7]\<rparr>))
             [1, 3, 1, 243, 0, 3, 244, 4]
             = (Some resp,
                (startServer None)(1 \<mapsto> \<lparr>registers = (replicate 500 (Num 0))[499 := Num 7]\<rparr>))
          \<and> length resp = 11 \<and> readUInt16BE resp 3 = Some 7
          \<and> readUInt16BE resp 5 = Some 0 \<and> readUInt16BE resp 7 = Some 0)"
proof -
  let ?tcp = "[0, 1, 0, 0, 0, 6, 1, 3, 1, 243, 0, 3] :: buffer"
  let ?rtu = "[1, 3, 1, 243, 0, 3, 244, 4] :: buffer"
  let ?dev = "\<lparr>registers = (replicate 500 (Num 0))[499 := Num 7]\<rparr>"
  let ?sl = "(startServer None)(1 \<mapsto> ?dev)"
  note inst = read_holding_registers[of ?tcp 1 ?sl ?dev 499 3 ?rtu]
  have "slave_ok ?dev"
    by (simp add: slave_ok_def list_all_length nth_list_update)
  then have d: "?sl 1 = Some ?dev"
    "\<forall>i<3. 499 + i < 500 \<longrightarrow> uint16 (array_get (registers ?dev) (499 + i))"
    using slave_ok_array_get[of ?dev 3 499] by simp_all
  have t: "tcp_framed ?tcp" "readUInt8 ?tcp 6 = Some 1" "readUInt8 ?tcp 7 = Some 3"
    "readUInt16BE ?tcp 8 = Some 499" "readUInt16BE ?tcp 10 = Some 3"
    by (simp_all add: tcp_framed_def readUInt16BE_def readUInt8_def)
  have r: "rtu_framed ?rtu" "length ?rtu = 8" "readUInt8 ?rtu 0 = Some 1"
    "readUInt8 ?rtu 1 = Some 3" "readUInt16BE ?rtu 2 = Some 499" "readUInt16BE ?rtu 4 = Some 3"
    by (simp_all add: rtu_framed_def readUInt16BE_def readUInt8_def crc_eval)
  from inst t d obtain resp where
    1: "tcp_processRequest ?sl ?tcp = (Some resp, ?sl)" "length resp = 9 + 2 * 3"
    "\<forall>i<3. map_option (Num \<circ> int) (readUInt16BE resp (9 + 2 * i))
        = Some (if 499 + i < 500 then array_get (registers ?dev) (499 + i) else Num 0)"
    by auto
  from inst r d obtain resp' where
    2: "rtu_processRequest ?sl ?rtu = (Some resp', ?sl)" "length resp' = 5 + 2 * 3"
    "\<forall>i<3. map_option (Num \<circ> int) (readUInt16BE resp' (3 + 2 * i))
        = Some (if 499 + i < 500 then array_get (registers ?dev) (499 + i) else Num 0)"
    by auto
  have "readUInt16BE resp 9 = Some 7" "readUInt16BE resp 11 = Some 0"
    "readUInt16BE resp 13 = Some 0"
    using 1(3)[rule_format, of 0] 1(3)[rule_format, of 1] 1(3)[rule_format, of 2]
    by (auto simp: array_get_def)
  moreover have "readUInt16BE resp' 3 = Some 7" "readUInt16BE resp' 5 = Some 0"
    "readUInt16BE resp' 7 = Some 0"
    using 2(3)[rule_format, of 0] 2(3)[rule_format, of 1] 2(3)[rule_format, of 2]
    by (auto simp: array_get_def)
  ultimately show ?thesis
    using 1(1,2) 2(1,2) by simp
qed

text \<open>
  Claim C1 as stated, for every 0x03 request addressed to a configured slave, fails when
  a register the request reads holds a number that does not fit 16 bits, which
  \<open>loadSlaves\<close> takes from the persisted file unchecked. After a start with a file whose
  array for slave 1 holds 70000 at address 499, the read of three registers from address
  499, an out-of-range read, gets no response on either transport: writing 70000 into
  the response throws.
\<close>

theorem read_holding_registers_unanswered:
  "tcp_processRequest
     (startServer (Some [(1, \<lparr>registers = (replicate 500 (Num 0))[499 := Num 70000]\<rparr>)]))
     [0, 1, 0, 0, 0, 6, 1, 3, 1, 243, 0, 3]
     = (None, startServer (Some [(1, \<lparr>registers = (replicate 500 (Num 0))[499 := Num 70000]\<rparr>)]))
   \<and> rtu_processRequest
     (startServer (Some [(1, \<lparr>registers = (replicate 500 (Num 0))[499 := Num 70000]\<rparr>)]))
     [1, 3, 1, 243, 0, 3, 244, 4]
     = (None, startServer (Some [(1, \<lparr>registers = (replicate 500 (Num 0))[499 := Num 70000]\<rparr>)]))"
proof -
  let ?tcp = "[0, 1, 0, 0, 0, 6, 1, 3, 1, 243, 0, 3] :: buffer"
  let ?rtu = "[1, 3, 1, 243, 0, 3, 244, 4] :: buffer"
  let ?regs = "(replicate 500 (Num 0))[499 := Num 70000]"
  let ?dev = "\<lparr>registers = ?regs\<rparr>"
  let ?sl = "startServer (Some [(1, ?dev)])"
  have d: "?sl 1 = Some ?dev"
    by (simp add: startServer_def initialize_def loadSlaves_def create_slaves_def
        SLAVE_IDS_def REGISTER_COUNT_def)
  have v: "read_value ?regs (499 + 0) = Num 70000"
    by (simp add: read_value_def registerCount_def array_get_def)
  have loop: "\<And>response base. read_loop ?regs response base 499 3 0 = None"
    using read_loop_throws[OF _ v] by simp
  have t: "tcp_framed ?tcp" "readUInt8 ?tcp 6 = Some 1" "readUInt8 ?tcp 7 = Some 3"
    by (simp_all add: tcp_framed_def readUInt16BE_def readUInt8_def)
  have r: "rtu_framed ?rtu" "readUInt8 ?rtu 0 = Some 1" "readUInt8 ?rtu 1 = Some 3"
    by (simp_all add: rtu_framed_def readUInt8_def crc_eval)
  have "tcp_processRequest ?sl ?tcp =
           tcp_read_holding ?sl ?dev (unat (?tcp ! 0) * 256 + unat (?tcp ! 1)) 0
             (unat (?tcp ! 6)) 3 (drop 7 ?tcp)"
    using t(1,2) d t(3) by (rule tcp_read_request)
  also have "\<dots> = (None, ?sl)"
    using loop
    by (simp add: tcp_read_holding_def readUInt16BE_def writeUInt8_def length_alloc Let_def)
  finally have 1: "tcp_processRequest ?sl ?tcp = (None, ?sl)" .
  have "rtu_processRequest ?sl ?rtu = rtu_read_holding ?sl ?dev (unat (?rtu ! 0)) 3 ?rtu"
    using r(1,2) d r(3) by (rule rtu_read_request)
  also have "\<dots> = (None, ?sl)"
    using loop
    by (simp add: rtu_read_holding_def readUInt16BE_def writeUInt8_def length_alloc Let_def)
  finally have 2: "rtu_processRequest ?sl ?rtu = (None, ?sl)" .
  show ?thesis
    using 1 2 by (rule conjI)
qed

lemma writeUInt8_above_255: "255 < v \<Longrightarrow> writeUInt8 buf v off = None"
  by (simp add: writeUInt8_def)

lemma rtu_read_holding_above_127:
  assumes "readUInt16BE frame 4 = Some quantity" and "127 < quantity"
  shows "rtu_read_holding sl dev slaveId functionCode frame = (None, sl)"
proof -
  have "255 < quantity * 2"
    using assms(2) by simp
  then have w: "\<And>b. writeUInt8 b (quantity * 2) 2 = None"
    by (rule writeUInt8_above_255)
  show ?thesis
    using assms(1)
    by (auto simp: rtu_read_holding_def Let_def w bind_eq_None_conv split: option.splits)
qed

text \<open>
  Claim C10. An RTU frame with a correct CRC that asks with function 0x03 for more than
  127 registers gets no response: writing the byte count \<open>quantity * 2\<close>, which is above
  255, into one byte throws, and \<open>processRequest\<close> returns \<open>null\<close>. The store is
  unchanged.
\<close>

theorem rtu_read_above_127:
  "rtu_framed frame \<and> readUInt8 frame 1 = Some 3 \<and> readUInt16BE frame 4 = Some quantity
     \<and> 127 < quantity
   \<longrightarrow> writeUInt8 buf (quantity * 2) 2 = None \<and> rtu_processRequest sl frame = (None, sl)"
proof (intro impI conjI)
  assume a: "rtu_framed frame \<and> readUInt8 frame 1 = Some 3
     \<and> readUInt16BE frame 4 = Some quantity \<and> 127 < quantity"
  then show "writeUInt8 buf (quantity * 2) 2 = None"
    by (intro writeUInt8_above_255) simp
  have fc: "unat (frame ! 1) = 3"
    using a readUInt8_Some[of frame 1 3] by simp
  show "rtu_processRequest sl frame = (None, sl)"
    using a fc rtu_read_holding_above_127[of frame quantity sl]
    by (simp add: rtu_framed_def rtu_processRequest_valid Let_def split: option.splits)
qed

theorem rtu_read_above_127_witness:
  "writeUInt8 (alloc 259) 256 2 = None
   \<and> rtu_processRequest (startServer None) [1, 3, 0, 0, 0, 128, 68, 106]
       = (None, startServer None)"
proof -
  let ?rtu = "[1, 3, 0, 0, 0, 128, 68, 106] :: buffer"
  have r: "rtu_framed ?rtu" "readUInt8 ?rtu 1 = Some 3" "readUInt16BE ?rtu 4 = Some 128"
    by (simp_all add: rtu_framed_def readUInt16BE_def readUInt8_def crc_eval)
  have "writeUInt8 (alloc 259) (128 * 2) 2 = None
        \<and> rtu_processRequest (startServer None) ?rtu = (None, startServer None)"
    using rtu_read_above_127[of ?rtu 128 "alloc 259" "startServer None"] r by simp
  then show ?thesis
    by simp
qed

section \<open>Function 0x06, Write Single Register\<close>

lemma tcp_write_single_request:
  assumes f: "tcp_framed frame"
    and unit: "readUInt8 frame 6 = Some unitId" "sl unitId = Some dev"
    and fc: "readUInt8 frame 7 = Some 6"
  shows "tcp_processRequest sl frame =
           tcp_write_single sl dev (unat (frame ! 0) * 256 + unat (frame ! 1)) 0
             (unat (frame ! 6)) 6 (drop 7 frame)"
  using unit(2) readUInt8_Some[OF unit(1)] readUInt8_Some[OF fc]
  by (simp add: tcp_framed_processRequest[OF f])

lemma rtu_write_single_request:
  assumes f: "rtu_framed frame"
    and unit: "readUInt8 frame 0 = Some unitId" "sl unitId = Some dev"
    and fc: "readUInt8 frame 1 = Some 6"
  shows "rtu_processRequest sl frame = rtu_write_single sl dev (unat (frame ! 0)) 6 frame"
  using f unit(2) readUInt8_Some[OF unit(1)] readUInt8_Some[OF fc]
  by (simp add: rtu_framed_def rtu_processRequest_valid)

lemma tcp_write_single_out_of_range:
  assumes "tcp_framed frame"
    and "readUInt16BE frame 8 = Some regAddr" and "readUInt16BE frame 10 = Some v"
    and "500 \<le> regAddr"
  shows "tcp_write_single sl dev (unat (frame ! 0) * 256 + unat (frame ! 1)) 0
           (unat (frame ! 6)) (unat (frame ! 7)) (drop 7 frame)
         = (Some (tcp_exception frame 0x02), sl)"
proof -
  have l: "8 \<le> length frame" "\<not> length (drop 7 frame) < 5"
    using assms(1) readUInt16BE_Some[OF assms(3)] by (simp_all add: tcp_framed_def)
  show ?thesis
    using l(2) assms(2-4) tcp_exception_response[OF l(1), of "0x02"]
    by (simp add: tcp_write_single_def readUInt16BE_drop registerCount_def)
qed

lemma rtu_write_single_echo:
  assumes "rtu_framed frame" and "length frame = 8"
  shows "appendCRC (take 6 frame) = Some frame"
  using verifyCRC_True(2)[of frame] assms by (simp add: rtu_framed_def)

lemma rtu_write_single_out_of_range:
  assumes "rtu_framed frame" and "length frame = 8"
    and "readUInt16BE frame 2 = Some regAddr" and "500 \<le> regAddr"
  shows "rtu_write_single sl dev slaveId functionCode frame = (Some frame, sl)"
proof -
  obtain v where "readUInt16BE frame 4 = Some v"
    using assms(2) by (simp add: readUInt16BE_def)
  then show ?thesis
    using assms rtu_write_single_echo[OF assms(1,2)]
    by (simp add: rtu_write_single_def registerCount_def)
qed

text \<open>
  Claim C4. A 0x06 request for a register address of 500 or more, addressed to a
  configured slave: the TCP path answers with the exception response of code 0x02 and
  leaves the store as it was; the RTU path leaves the store as it was and answers with
  the first six bytes of the request (slave, function, address, value) followed by their
  CRC, which is the request frame itself.
\<close>

theorem write_single_out_of_range:
  "(tcp_framed tcpFrame \<and> readUInt8 tcpFrame 6 = Some unitId \<and> sl unitId = Some dev
      \<and> readUInt8 tcpFrame 7 = Some 6 \<and> readUInt16BE tcpFrame 8 = Some regAddr
      \<and> readUInt16BE tcpFrame 10 = Some v \<and> 500 \<le> regAddr
    \<longrightarrow> tcp_processRequest sl tcpFrame = (Some (tcp_exception tcpFrame 0x02), sl))
   \<and> (rtu_framed rtuFrame \<and> length rtuFrame = 8 \<and> readUInt8 rtuFrame 0 = Some unitId
      \<and> sl unitId = Some dev \<and> readUInt8 rtuFrame 1 = Some 6
      \<and> readUInt16BE rtuFrame 2 = Some regAddr \<and> 500 \<le> regAddr
    \<longrightarrow> rtu_processRequest sl rtuFrame = (Some rtuFrame, sl)
        \<and> appendCRC (take 6 rtuFrame) = Some rtuFrame)"
proof (intro conjI impI)
  assume a: "tcp_framed tcpFrame \<and> readUInt8 tcpFrame 6 = Some unitId \<and> sl unitId = Some dev
      \<and> readUInt8 tcpFrame 7 = Some 6 \<and> readUInt16BE tcpFrame 8 = Some regAddr
      \<and> readUInt16BE tcpFrame 10 = Some v \<and> 500 \<le> regAddr"
  have fc: "unat (tcpFrame ! 7) = 6"
    using a readUInt8_Some[of tcpFrame 7 6] by simp
  have "tcp_processRequest sl tcpFrame =
           tcp_write_single sl dev (unat (tcpFrame ! 0) * 256 + unat (tcpFrame ! 1)) 0
             (unat (tcpFrame ! 6)) 6 (drop 7 tcpFrame)"
    using a by (intro tcp_write_single_request[of tcpFrame unitId sl dev]) simp_all
  then show "tcp_processRequest sl tcpFrame = (Some (tcp_exception tcpFrame 0x02), sl)"
    using a fc tcp_write_single_out_of_range[of tcpFrame regAddr v sl dev] by simp
next
  assume a: "rtu_framed rtuFrame \<and> length rtuFrame = 8 \<and> readUInt8 rtuFrame 0 = Some unitId
      \<and> sl unitId = Some dev \<and> readUInt8 rtuFrame 1 = Some 6
      \<and> readUInt16BE rtuFrame 2 = Some regAddr \<and> 500 \<le> regAddr"
  have "rtu_processRequest sl rtuFrame
          = rtu_write_single sl dev (unat (rtuFrame ! 0)) 6 rtuFrame"
    using a by (intro rtu_write_single_request[of rtuFrame unitId sl dev]) simp_all
  then show "rtu_processRequest sl rtuFrame = (Some rtuFrame, sl)"
    using a rtu_write_single_out_of_range[of rtuFrame regAddr sl dev] by simp
  show "appendCRC (take 6 rtuFrame) = Some rtuFrame"
    using a by (intro rtu_write_single_echo) simp_all
qed

text \<open>
  The value 42 written to address 500 of slave 1 after start-up, on both transports.
\<close>

theorem write_single_out_of_range_witness:
  "tcp_processRequest (startServer None) [0, 1, 0, 0, 0, 6, 1, 6, 1, 244, 0, 42]
     = (Some [0, 1, 0, 0, 0, 3, 1, 0x86, 0x02], startServer None)
   \<and> rtu_processRequest (startServer None) [1, 6, 1, 244, 0, 42, 72, 27]
     = (Some [1, 6, 1, 244, 0, 42, 72, 27], startServer None)"
proof -
  let ?tcp = "[0, 1, 0, 0, 0, 6, 1, 6, 1, 244, 0, 42] :: buffer"
  let ?rtu = "[1, 6, 1, 244, 0, 42, 72, 27] :: buffer"
  let ?dev = "\<lparr>registers = replicate 500 (Num 0)\<rparr>"
  have t: "tcp_framed ?tcp" "readUInt8 ?tcp 6 = Some 1" "readUInt8 ?tcp 7 = Some 6"
    "readUInt16BE ?tcp 8 = Some 500" "readUInt16BE ?tcp 10 = Some 42"
    by (simp_all add: tcp_framed_def readUInt16BE_def readUInt8_def)
  have r: "rtu_framed ?rtu" "length ?rtu = 8" "readUInt8 ?rtu 0 = Some 1"
    "readUInt8 ?rtu 1 = Some 6" "readUInt16BE ?rtu 2 = Some 500"
    by (simp_all add: rtu_framed_def readUInt16BE_def readUInt8_def crc_eval)
  have "tcp_processRequest (startServer None) ?tcp
          = (Some (tcp_exception ?tcp 0x02), startServer None)
        \<and> rtu_processRequest (startServer None) ?rtu = (Some ?rtu, startServer None)"
    using write_single_out_of_range[of ?tcp 1 "startServer None" ?dev 500 42 ?rtu]
      t r startServer_None(1)
    by simp
  then show ?thesis
    by (simp only: tcp_exception_def) simp
qed

section \<open>The RTU path never answers with exception code 0x03\<close>

lemma read_loop_prefix:
  assumes "read_loop regs response base startAddr quantity i = Some r"
  shows "length r = length response \<and> (\<forall>k<base. r ! k = response ! k)"
  using assms
proof (induction regs response base startAddr quantity i rule: read_loop.induct)
  case (1 regs response base startAddr quantity i)
  show ?case
  proof (cases "i < quantity")
    case False
    then show ?thesis
      using "1.prems" by (simp add: read_loop.simps)
  next
    case True
    let ?val = "if startAddr + i < registerCount then array_get regs (startAddr + i) else Num 0"
    from "1.prems" True obtain response' where
      w: "writeUInt16BE response ?val (base + i * 2) = Some response'"
      and r: "read_loop regs response' base startAddr quantity (i + 1) = Some r"
      by (subst (asm) read_loop.simps) (auto simp: Let_def split: option.splits)
    have p: "length response' = length response \<and> (\<forall>k<base. response' ! k = response ! k)"
      using w by (cases ?val) (auto split: if_splits)
    from "1.IH"[OF True refl w r] p show ?thesis
      by simp
  qed
qed

lemma rtu_read_holding_function:
  assumes "rtu_read_holding sl dev slaveId 3 frame = (Some resp, sl')"
  shows "3 \<le> length resp \<and> resp ! 1 = 3"
proof -
  from assms obtain startAddr quantity b1 b2 b3 r where
    w: "writeUInt8 (alloc (3 + quantity * 2)) slaveId 0 = Some b1"
      "writeUInt8 b1 3 1 = Some b2" "writeUInt8 b2 (quantity * 2) 2 = Some b3"
    and r: "read_loop (registers dev) b3 3 startAddr quantity 0 = Some r"
    and a: "appendCRC r = Some resp"
    by (auto simp: rtu_read_holding_def Let_def bind_eq_Some_conv
        split: if_splits option.splits)
  have b3: "length b3 = 3 + quantity * 2" "b3 ! 1 = 3"
    using w by (auto simp: writeUInt8_def length_alloc split: if_splits)
  have "length r = 3 + quantity * 2" "r ! 1 = 3"
    using read_loop_prefix[OF r] b3 by simp_all
  then show ?thesis
    using a by (auto simp: appendCRC_eq nth_append)
qed

lemma rtu_write_single_function:
  assumes "rtu_write_single sl dev slaveId functionCode frame = (Some resp, sl')"
  shows "3 \<le> length resp \<and> resp ! 1 = frame ! 1"
  using assms
  by (auto simp: rtu_write_single_def appendCRC_eq nth_append split: if_splits option.splits)

lemma rtu_write_multiple_function:
  assumes "rtu_write_multiple sl dev slaveId 16 frame = (Some resp, sl')"
  shows "3 \<le> length resp \<and> resp ! 1 = 16"
proof -
  from assms obtain startAddr quantity b1 b2 b3 b4 where
    w: "writeUInt8 (alloc 6) slaveId 0 = Some b1" "writeUInt8 b1 16 1 = Some b2"
      "writeUInt16BE b2 (Num (int startAddr)) 2 = Some b3"
      "writeUInt16BE b3 (Num (int quantity)) 4 = Some b4"
    and a: "appendCRC b4 = Some resp"
    by (auto simp: rtu_write_multiple_def Let_def bind_eq_Some_conv
        simp del: writeUInt16BE.simps split: if_splits option.splits prod.splits)
  have "length b4 = 6 \<and> b4 ! 1 = 16"
    using w by (auto simp: writeUInt8_def length_alloc split: if_splits)
  then show ?thesis
    using a by (auto simp: appendCRC_eq nth_append)
qed

lemma rtu_createExceptionResponse_code:
  assumes "rtu_createExceptionResponse slaveId functionCode 1 = Some resp"
  shows "resp ! 2 = 1"
  using assms by (auto simp: rtu_createExceptionResponse_def appendCRC_eq Let_def)

lemma rtu_no_exception_3:
  assumes "fst (rtu_processRequest sl frame) = Some resp"
  shows "rtu_exception_code resp \<noteq> Some 3"
proof -
  have f: "4 \<le> length frame" "verifyCRC frame = Some True"
    using assms by (auto simp: rtu_processRequest_def split: if_splits option.splits bool.splits)
  obtain dev where dev: "sl (unat (frame ! 0)) = Some dev"
    using assms by (auto simp: rtu_processRequest_valid[OF f] Let_def split: option.splits)
  let ?fc = "unat (frame ! 1)"
  consider "?fc = 3" | "?fc = 6" | "?fc = 16" | "?fc \<noteq> 3 \<and> ?fc \<noteq> 6 \<and> ?fc \<noteq> 16"
    by blast
  then show ?thesis
  proof cases
    case 1
    then obtain sl' where "rtu_read_holding sl dev (unat (frame ! 0)) 3 frame = (Some resp, sl')"
      using assms dev by (cases "rtu_read_holding sl dev (unat (frame ! 0)) 3 frame")
        (simp add: rtu_processRequest_valid[OF f] Let_def)
    from rtu_read_holding_function[OF this] show ?thesis
      by (simp add: rtu_exception_code_def)
  next
    case 2
    then obtain sl' where "rtu_write_single sl dev (unat (frame ! 0)) 6 frame = (Some resp, sl')"
      using assms dev by (cases "rtu_write_single sl dev (unat (frame ! 0)) 6 frame")
        (simp add: rtu_processRequest_valid[OF f] Let_def)
    from rtu_write_single_function[OF this] have "3 \<le> length resp" "resp ! 1 = frame ! 1"
      by simp_all
    moreover have "frame ! 1 = 6"
      using 2 by (simp add: word_unat_eq_iff)
    ultimately show ?thesis
      by (simp add: rtu_exception_code_def)
  next
    case 3
    then obtain sl' where
      "rtu_write_multiple sl dev (unat (frame ! 0)) 16 frame = (Some resp, sl')"
      using assms dev by (cases "rtu_write_multiple sl dev (unat (frame ! 0)) 16 frame")
        (simp add: rtu_processRequest_valid[OF f] Let_def)
    from rtu_write_multiple_function[OF this] show ?thesis
      by (simp add: rtu_exception_code_def)
  next
    case 4
    then have "rtu_createExceptionResponse (unat (frame ! 0)) ?fc 1 = Some resp"
      using assms dev by (simp add: rtu_processRequest_valid[OF f] Let_def)
    from rtu_createExceptionResponse_code[OF this] show ?thesis
      by (simp add: rtu_exception_code_def)
  qed
qed

section \<open>The quantity of a read\<close>

lemma tcp_read_holding_bad_quantity:
  assumes "tcp_framed frame"
    and "readUInt16BE frame 10 = Some quantity" and "quantity < 1 \<or> 125 < quantity"
  shows "tcp_read_holding sl dev (unat (frame ! 0) * 256 + unat (frame ! 1)) 0
           (unat (frame ! 6)) (unat (frame ! 7)) (drop 7 frame)
         = (Some (tcp_exception frame 0x03), sl)"
proof -
  have l: "8 \<le> length frame" "\<not> length (drop 7 frame) < 5" "10 \<le> length frame"
    using assms(1) readUInt16BE_Some[OF assms(2)] by (simp_all add: tcp_framed_def)
  obtain startAddr where "readUInt16BE frame 8 = Some startAddr"
    using l(3) by (simp add: readUInt16BE_def)
  then show ?thesis
    using l(2) assms(2,3) tcp_exception_response[OF l(1), of "0x03"]
    by (auto simp: tcp_read_holding_def readUInt16BE_drop)
qed

text \<open>
  Claim C5, as the code has it. A 0x03 request on the TCP path addressed to a configured
  slave whose quantity is 0 or above 125 is answered with the exception response of code
  0x03, and the store is unchanged. The RTU path makes no such check before it builds
  its response: no response of the RTU path is an exception response of code 0x03; a
  request to a configured slave for 0 registers is answered with a success response
  that holds no values, whatever the registers hold; and a request for any quantity up
  to 127, also 126 and 127, is answered with a success response of that many values
  when every register it reads holds an integer of 16 bits.
\<close>

theorem read_quantity_limit:
  "(tcp_framed tcpFrame \<and> readUInt8 tcpFrame 6 = Some unitId \<and> sl unitId = Some dev
      \<and> readUInt8 tcpFrame 7 = Some 3 \<and> readUInt16BE tcpFrame 10 = Some quantity
      \<and> (quantity < 1 \<or> 125 < quantity)
    \<longrightarrow> tcp_processRequest sl tcpFrame = (Some (tcp_exception tcpFrame 0x03), sl))
   \<and> (fst (rtu_processRequest sl rtuFrame) = Some resp \<longrightarrow> rtu_exception_code resp \<noteq> Some 3)
   \<and> (rtu_framed rtuFrame \<and> length rtuFrame = 8 \<and> readUInt8 rtuFrame 0 = Some unitId
      \<and> sl unitId = Some dev \<and> readUInt8 rtuFrame 1 = Some 3
      \<and> readUInt16BE rtuFrame 4 = Some 0
    \<longrightarrow> (\<exists>resp. rtu_processRequest sl rtuFrame = (Some resp, sl)
           \<and> length resp = 5 \<and> take 3 resp = [rtuFrame ! 0, 3, 0]
           \<and> verifyCRC resp = Some True))
   \<and> (rtu_framed rtuFrame \<and> length rtuFrame = 8 \<and> readUInt8 rtuFrame 0 = Some unitId
      \<and> sl unitId = Some dev \<and> readUInt8 rtuFrame 1 = Some 3
      \<and> readUInt16BE rtuFrame 2 = Some startAddr \<and> readUInt16BE rtuFrame 4 = Some quantity
      \<and> quantity \<le> 127
      \<and> (\<forall>i<quantity. startAddr + i < 500
             \<longrightarrow> uint16 (array_get (registers dev) (startAddr + i)))
    \<longrightarrow> (\<exists>resp. rtu_processRequest sl rtuFrame = (Some resp, sl)
           \<and> length resp = 5 + 2 * quantity
           \<and> take 3 resp = [rtuFrame ! 0, 3, of_nat (2 * quantity)]))"
proof (intro conjI impI)
  assume a: "tcp_framed tcpFrame \<and> readUInt8 tcpFrame 6 = Some unitId \<and> sl unitId = Some dev
      \<and> readUInt8 tcpFrame 7 = Some 3 \<and> readUInt16BE tcpFrame 10 = Some quantity
      \<and> (quantity < 1 \<or> 125 < quantity)"
  have fc: "unat (tcpFrame ! 7) = 3"
    using a readUInt8_Some[of tcpFrame 7 3] by simp
  have "tcp_processRequest sl tcpFrame =
           tcp_read_holding sl dev (unat (tcpFrame ! 0) * 256 + unat (tcpFrame ! 1)) 0
             (unat (tcpFrame ! 6)) 3 (drop 7 tcpFrame)"
    using a by (intro tcp_read_request[of tcpFrame unitId sl dev]) simp_all
  then show "tcp_processRequest sl tcpFrame = (Some (tcp_exception tcpFrame 0x03), sl)"
    using a fc tcp_read_holding_bad_quantity[of tcpFrame quantity sl dev] by simp
next
  assume "fst (rtu_processRequest sl rtuFrame) = Some resp"
  then show "rtu_exception_code resp \<noteq> Some 3"
    by (rule rtu_no_exception_3)
next
  assume a: "rtu_framed rtuFrame \<and> length rtuFrame = 8 \<and> readUInt8 rtuFrame 0 = Some unitId
      \<and> sl unitId = Some dev \<and> readUInt8 rtuFrame 1 = Some 3
      \<and> readUInt16BE rtuFrame 4 = Some 0"
  obtain addr where addr: "readUInt16BE rtuFrame 2 = Some addr"
    using a by (simp add: readUInt16BE_def)
  have e: "rtu_processRequest sl rtuFrame
             = rtu_read_holding sl dev (unat (rtuFrame ! 0)) 3 rtuFrame"
    using a by (intro rtu_read_request[of rtuFrame unitId sl dev]) simp_all
  have len: "length rtuFrame = 8" and qty: "readUInt16BE rtuFrame 4 = Some 0"
    using a by simp_all
  have q: "(0::nat) \<le> 127"
    by simp
  have ok: "\<forall>i<0. addr + i < 500 \<longrightarrow> uint16 (array_get (registers dev) (addr + i))"
    by simp
  from rtu_read_holding_response[OF len addr qty q ok]
  show "\<exists>resp. rtu_processRequest sl rtuFrame = (Some resp, sl)
           \<and> length resp = 5 \<and> take 3 resp = [rtuFrame ! 0, 3, 0]
           \<and> verifyCRC resp = Some True"
    unfolding e by auto
next
  assume a: "rtu_framed rtuFrame \<and> length rtuFrame = 8 \<and> readUInt8 rtuFrame 0 = Some unitId
      \<and> sl unitId = Some dev \<and> readUInt8 rtuFrame 1 = Some 3
      \<and> readUInt16BE rtuFrame 2 = Some startAddr \<and> readUInt16BE rtuFrame 4 = Some quantity
      \<and> quantity \<le> 127
      \<and> (\<forall>i<quantity. startAddr + i < 500
             \<longrightarrow> uint16 (array_get (registers dev) (startAddr + i)))"
  have ok: "\<forall>i<quantity. startAddr + i < 500
              \<longrightarrow> uint16 (array_get (registers dev) (startAddr + i))"
    using a by blast
  have e: "rtu_processRequest sl rtuFrame
             = rtu_read_holding sl dev (unat (rtuFrame ! 0)) 3 rtuFrame"
    using a by (intro rtu_read_request[of rtuFrame unitId sl dev]) simp_all
  have len: "length rtuFrame = 8"
    and addr: "readUInt16BE rtuFrame 2 = Some startAddr"
    and qty: "readUInt16BE rtuFrame 4 = Some quantity"
    and q: "quantity \<le> 127"
    using a by simp_all
  from rtu_read_holding_response[OF len addr qty q ok]
  show "\<exists>resp. rtu_processRequest sl rtuFrame = (Some resp, sl)
           \<and> length resp = 5 + 2 * quantity
           \<and> take 3 resp = [rtuFrame ! 0, 3, of_nat (2 * quantity)]"
    unfolding e by blast
qed

text \<open>
  Slave 1 after start-up: a TCP read of 126 registers is refused with code 0x03, an RTU
  read of 127 registers is answered with 259 bytes. Slave 1 after a start with a file
  whose array holds 70000 at address 499: an RTU read of 0 registers is answered with a
  success response of 5 bytes, which is not an exception response of code 0x03.
\<close>

theorem read_quantity_limit_witness:
  "tcp_processRequest (startServer None) [0, 1, 0, 0, 0, 6, 1, 3, 0, 0, 0, 126]
     = (Some [0, 1, 0, 0, 0, 3, 1, 0x83, 0x03], startServer None)
   \<and> (\<exists>resp. rtu_processRequest (startServer None) [1, 3, 0, 0, 0, 127, 4, 42]
                = (Some resp, startServer None)
             \<and> length resp = 259 \<and> take 3 resp = [1, 3, 254])
   \<and> (\<exists>resp. rtu_processRequest
                (startServer (Some [(1, \<lparr>registers = (replicate 500 (Num 0))[499 := Num 70000]\<rparr>)]))
                [1, 3, 0, 0, 0, 0, 69, 202]
                = (Some resp,
                   startServer (Some [(1, \<lparr>registers = (replicate 500 (Num 0))[499 := Num 70000]\<rparr>)]))
             \<and> length resp = 5 \<and> take 3 resp = [1, 3, 0]
             \<and> rtu_exception_code resp \<noteq> Some 3)"
proof -
  let ?tcp = "[0, 1, 0, 0, 0, 6, 1, 3, 0, 0, 0, 126] :: buffer"
  let ?rtu = "[1, 3, 0, 0, 0, 127, 4, 42] :: buffer"
  let ?rtuz = "[1, 3, 0, 0, 0, 0, 69, 202] :: buffer"
  let ?dev = "\<lparr>registers = replicate 500 (Num 0)\<rparr>"
  let ?dev' = "\<lparr>registers = (replicate 500 (Num 0))[499 := Num 70000]\<rparr>"
  let ?sl' = "startServer (Some [(1, ?dev')])"
  have t: "tcp_framed ?tcp" "readUInt8 ?tcp 6 = Some 1" "readUInt8 ?tcp 7 = Some 3"
    "readUInt16BE ?tcp 10 = Some 126"
    by (simp_all add: tcp_framed_def readUInt16BE_def readUInt8_def)
  have r: "rtu_framed ?rtu" "length ?rtu = 8" "readUInt8 ?rtu 0 = Some 1"
    "readUInt8 ?rtu 1 = Some 3" "readUInt16BE ?rtu 4 = Some 127"
    by (simp_all add: rtu_framed_def readUInt16BE_def readUInt8_def crc_eval)
  have r2: "readUInt16BE ?rtu 2 = Some 0"
    by (simp add: readUInt16BE_def)
  have rz: "rtu_framed ?rtuz" "length ?rtuz = 8" "readUInt8 ?rtuz 0 = Some 1"
    "readUInt8 ?rtuz 1 = Some 3" "readUInt16BE ?rtuz 4 = Some 0"
    by (simp_all add: rtu_framed_def readUInt16BE_def readUInt8_def crc_eval)
  have d: "\<forall>i<127. 0 + i < 500 \<longrightarrow> uint16 (array_get (registers ?dev) (0 + i))"
    using slave_ok_array_get[OF slave_ok_zero, of 127 0] by simp
  have d': "?sl' 1 = Some ?dev'"
    by (simp add: startServer_def initialize_def loadSlaves_def create_slaves_def
        SLAVE_IDS_def REGISTER_COUNT_def)
  have 1: "tcp_processRequest (startServer None) ?tcp
          = (Some (tcp_exception ?tcp 0x03), startServer None)"
    using read_quantity_limit[where tcpFrame = ?tcp and rtuFrame = ?rtu and unitId = 1
        and sl = "startServer None" and dev = ?dev and quantity = 126 and startAddr = 0
        and resp = "[]"]
      t startServer_None(1)
    by simp
  have 2: "\<exists>resp. rtu_processRequest (startServer None) ?rtu = (Some resp, startServer None)
             \<and> length resp = 5 + 2 * 127 \<and> take 3 resp = [?rtu ! 0, 3, of_nat (2 * 127)]"
    using read_quantity_limit[where tcpFrame = ?tcp and rtuFrame = ?rtu and unitId = 1
        and sl = "startServer None" and dev = ?dev and quantity = 127 and startAddr = 0
        and resp = "[]"]
      r r2 d startServer_None(1)
    by simp
  have "\<exists>resp. rtu_processRequest ?sl' ?rtuz = (Some resp, ?sl')
          \<and> length resp = 5 \<and> take 3 resp = [?rtuz ! 0, 3, 0]"
    using read_quantity_limit[where tcpFrame = ?tcp and rtuFrame = ?rtuz and unitId = 1
        and sl = ?sl' and dev = ?dev' and quantity = 0 and startAddr = 0 and resp = "[]"]
      rz d'
    by auto
  then obtain resp where 3: "rtu_processRequest ?sl' ?rtuz = (Some resp, ?sl')"
    "length resp = 5" "take 3 resp = [?rtuz ! 0, 3, 0]"
    by blast
  have "rtu_exception_code resp \<noteq> Some 3"
    using read_quantity_limit[where tcpFrame = ?tcp and rtuFrame = ?rtuz and unitId = 1
        and sl = ?sl' and dev = ?dev' and quantity = 0 and startAddr = 0 and resp = resp]
      3(1)
    by simp
  then have "\<exists>resp. rtu_processRequest ?sl' ?rtuz = (Some resp, ?sl')
             \<and> length resp = 5 \<and> take 3 resp = [1, 3, 0]
             \<and> rtu_exception_code resp \<noteq> Some 3"
    using 3 by simp
  then show ?thesis
    using 1 2 by (simp only: tcp_exception_def) simp
qed

text \<open>
  Claim C5 as stated, for every 0x03 request on the TCP path, fails for a unit that is
  not configured: the check of the unit comes first, and a read of 0 registers from unit
  99 is answered with code 0x0B, not 0x03.
\<close>

theorem read_quantity_unconfigured:
  "tcp_processRequest (startServer None) [0, 1, 0, 0, 0, 6, 99, 3, 0, 0, 0, 0]
     = (Some [0, 1, 0, 0, 0, 3, 99, 0x83, 0x0B], startServer None)"
proof -
  let ?tcp = "[0, 1, 0, 0, 0, 6, 99, 3, 0, 0, 0, 0] :: buffer"
  have "tcp_framed ?tcp" "readUInt8 ?tcp 6 = Some 99"
    by (simp_all add: tcp_framed_def readUInt16BE_def readUInt8_def)
  then have "tcp_processRequest (startServer None) ?tcp
               = (Some (tcp_exception ?tcp 0x0B), startServer None)"
    using startServer_None(2) by (rule tcp_unknown_unit)
  then show ?thesis
    by (simp only: tcp_exception_def) simp
qed

section \<open>The invariant of the store\<close>

lemma slave_ok_array_set:
  assumes "slave_ok dev" and "a < registerCount" and "uint16 v"
  shows "slave_ok (dev\<lparr>registers := array_set (registers dev) a v\<rparr>)"
  using assms
  by (auto simp: slave_ok_def array_set_def registerCount_def list_all_length nth_list_update)

lemma uint16_read: "readUInt16BE buf off = Some v \<Longrightarrow> uint16 (Num (int v))"
  using readUInt16BE_bound[of buf off v] by simp

lemma write_loop_slave_ok:
  assumes "slave_ok (dev\<lparr>registers := regs\<rparr>)"
    and "write_loop request base startAddr quantity i regs = (finished, regs')"
  shows "slave_ok (dev\<lparr>registers := regs'\<rparr>)"
  using assms
proof (induction request base startAddr quantity i regs rule: write_loop.induct)
  case (1 request base startAddr quantity i regs)
  show ?case
  proof (cases "i < quantity")
    case False
    then show ?thesis
      using "1.prems" by (simp add: write_loop.simps)
  next
    case True
    show ?thesis
    proof (cases "readUInt16BE request (base + i * 2)")
      case None
      then show ?thesis
        using True "1.prems" by (simp add: write_loop.simps)
    next
      case (Some v)
      let ?regs1 = "if startAddr + i < registerCount
                    then array_set regs (startAddr + i) (Num (int v)) else regs"
      have ok1: "slave_ok (dev\<lparr>registers := ?regs1\<rparr>)"
        using slave_ok_array_set[OF "1.prems"(1) _ uint16_read[OF Some], of "startAddr + i"]
          "1.prems"(1) by simp
      have "write_loop request base startAddr quantity (i + 1) ?regs1 = (finished, regs')"
        using "1.prems"(2) True Some by (subst (asm) write_loop.simps) simp
      with "1.IH"[OF True Some ok1] show ?thesis
        by simp
    qed
  qed
qed

lemma store_ok_upd: "store_ok sl \<Longrightarrow> slave_ok dev \<Longrightarrow> store_ok (sl(slaveId \<mapsto> dev))"
  by (simp add: store_ok_def)

lemma store_ok_lookup: "store_ok sl \<Longrightarrow> sl slaveId = Some dev \<Longrightarrow> slave_ok dev"
  by (auto simp: store_ok_def)

lemma tcp_read_holding_store:
  "snd (tcp_read_holding sl dev transactionId protocolId unitId functionCode pdu) = sl"
  by (simp add: tcp_read_holding_def split: option.splits)

lemma rtu_read_holding_store:
  "snd (rtu_read_holding sl dev slaveId functionCode frame) = sl"
  by (simp add: rtu_read_holding_def split: option.splits)

lemma tcp_write_single_store_ok:
  assumes "store_ok sl" and "slave_ok dev"
  shows "store_ok (snd (tcp_write_single sl dev transactionId protocolId unitId functionCode pdu))"
  using assms
  by (auto simp: tcp_write_single_def split: option.splits
      intro!: store_ok_upd slave_ok_array_set uint16_read)

lemma rtu_write_single_store_ok:
  assumes "store_ok sl" and "slave_ok dev"
  shows "store_ok (snd (rtu_write_single sl dev slaveId functionCode frame))"
  using assms
  by (auto simp: rtu_write_single_def split: option.splits
      intro!: store_ok_upd slave_ok_array_set uint16_read)

lemma tcp_write_multiple_store_ok:
  assumes "store_ok sl" and "slave_ok dev"
  shows "store_ok (snd (tcp_write_multiple sl dev transactionId protocolId unitId functionCode pdu))"
  using assms write_loop_slave_ok[where dev=dev and regs="registers dev"]
  by (auto simp: tcp_write_multiple_def split: option.splits prod.splits intro!: store_ok_upd)

lemma rtu_write_multiple_store_ok:
  assumes "store_ok sl" and "slave_ok dev"
  shows "store_ok (snd (rtu_write_multiple sl dev slaveId functionCode frame))"
  using assms write_loop_slave_ok[where dev=dev and regs="registers dev"]
  by (auto simp: rtu_write_multiple_def split: option.splits prod.splits intro!: store_ok_upd)

lemma tcp_processRequest_store_ok:
  assumes "store_ok sl"
  shows "store_ok (snd (tcp_processRequest sl frame))"
  using assms tcp_write_single_store_ok[OF assms] tcp_write_multiple_store_ok[OF assms]
    store_ok_lookup[OF assms]
  by (auto simp: tcp_processRequest_def Let_def tcp_read_holding_store split: option.splits)

lemma rtu_processRequest_store_ok:
  assumes "store_ok sl"
  shows "store_ok (snd (rtu_processRequest sl frame))"
  using assms rtu_write_single_store_ok[OF assms] rtu_write_multiple_store_ok[OF assms]
    store_ok_lookup[OF assms]
  by (auto simp: rtu_processRequest_def Let_def rtu_read_holding_store
      split: option.splits bool.splits)

lemma slave_ok_fill_zero: "slave_ok dev \<Longrightarrow> slave_ok (fill_zero dev)"
  by (simp add: slave_ok_def fill_zero_def list_all_length)

lemma clearSlave_store_ok: "store_ok sl \<Longrightarrow> store_ok (clearSlave slaveId sl)"
  by (auto simp: clearSlave_def split: option.splits
      intro!: store_ok_upd slave_ok_fill_zero store_ok_lookup)

lemma clearAllSlaves_store_ok: "store_ok sl \<Longrightarrow> store_ok (clearAllSlaves sl)"
  by (auto simp: store_ok_def clearAllSlaves_def intro: slave_ok_fill_zero)

lemma create_slaves_store_ok:
  "store_ok sl \<Longrightarrow> store_ok (create_slaves slaveIds 500 sl)"
  unfolding create_slaves_def
  by (induction slaveIds arbitrary: sl) (simp_all add: store_ok_upd slave_ok_zero)

lemma create_slaves_dom: "dom (create_slaves slaveIds n sl) = dom sl \<union> set slaveIds"
  unfolding create_slaves_def
  by (induction slaveIds arbitrary: sl) auto

lemma load_fold_store_ok:
  assumes "store_ok sl"
    and "list_all (\<lambda>(slaveId, saved). sl slaveId = None \<or> slave_ok saved) savedSlaves"
  shows "store_ok (fold (\<lambda>(slaveId, saved) s.
                  case s slaveId of
                    None \<Rightarrow> s
                  | Some dev \<Rightarrow> s(slaveId \<mapsto> dev\<lparr>registers := registers saved\<rparr>))
               savedSlaves sl)
         \<and> dom (fold (\<lambda>(slaveId, saved) s.
                  case s slaveId of
                    None \<Rightarrow> s
                  | Some dev \<Rightarrow> s(slaveId \<mapsto> dev\<lparr>registers := registers saved\<rparr>))
               savedSlaves sl) = dom sl"
  using assms
proof (induction savedSlaves arbitrary: sl)
  case Nil
  then show ?case by simp
next
  case (Cons entry savedSlaves)
  obtain slaveId saved where entry: "entry = (slaveId, saved)"
    by (cases entry)
  let ?sl = "case sl slaveId of
               None \<Rightarrow> sl
             | Some dev \<Rightarrow> sl(slaveId \<mapsto> dev\<lparr>registers := registers saved\<rparr>)"
  have d: "dom ?sl = dom sl"
    by (auto split: option.splits)
  have "\<And>dev. slave_ok saved \<Longrightarrow> slave_ok (dev\<lparr>registers := registers saved\<rparr>)"
    by (simp add: slave_ok_def)
  then have ok: "store_ok ?sl"
    using Cons.prems by (auto simp: entry split: option.splits intro!: store_ok_upd)
  have "\<And>k. (?sl k = None) = (sl k = None)"
    using d by (metis domIff)
  then have rest: "list_all (\<lambda>(slaveId, saved). ?sl slaveId = None \<or> slave_ok saved) savedSlaves"
    using Cons.prems(2) by (simp add: entry)
  show ?case
    using Cons.IH[OF ok rest] d by (simp add: entry)
qed

lemma loadSlaves_store_ok:
  "store_ok sl \<Longrightarrow> saved_ok sl file \<Longrightarrow> store_ok (loadSlaves file sl)"
  and loadSlaves_dom: "dom (loadSlaves file sl) = dom sl"
proof -
  show "dom (loadSlaves file sl) = dom sl"
  proof (cases "file")
    case None
    then show ?thesis by (simp add: loadSlaves_def)
  next
    case (Some savedSlaves)
    have "\<And>sl. dom (fold (\<lambda>(slaveId, saved) s.
                  case s slaveId of
                    None \<Rightarrow> s
                  | Some dev \<Rightarrow> s(slaveId \<mapsto> dev\<lparr>registers := registers saved\<rparr>))
               savedSlaves sl) = dom sl"
      by (induction savedSlaves) (auto split: option.splits if_splits)
    then show ?thesis
      by (simp add: loadSlaves_def Some)
  qed
  show "store_ok sl \<Longrightarrow> saved_ok sl file \<Longrightarrow> store_ok (loadSlaves file sl)"
    using load_fold_store_ok[of sl]
    by (auto simp: loadSlaves_def saved_ok_def split: option.splits)
qed

lemma store_ok_empty: "store_ok Map.empty"
  by (simp add: store_ok_def)

lemma startServer_store_ok:
  assumes "saved_ok (create_slaves SLAVE_IDS REGISTER_COUNT Map.empty) file"
  shows "store_ok (startServer file)" and "dom (startServer file) = set SLAVE_IDS"
  using assms create_slaves_store_ok[OF store_ok_empty, of SLAVE_IDS]
  by (simp_all add: startServer_def initialize_def REGISTER_COUNT_def loadSlaves_store_ok
      loadSlaves_dom create_slaves_dom)

lemma mask_16_bounds: "0 \<le> v AND (0xFFFF :: int)" "v AND (0xFFFF :: int) \<le> 65535"
  by (simp_all add: AND_upper2)

lemma update_registers_ok:
  assumes "slave_ok (dev\<lparr>registers := regs\<rparr>)" and "base + n \<le> 500"
  shows "slave_ok (dev\<lparr>registers := update_registers body base n regs\<rparr>)"
  using assms
proof (induction n)
  case 0
  then show ?case by (simp add: update_registers_def)
next
  case (Suc n)
  let ?regs = "update_registers body base n regs"
  have ok: "slave_ok (dev\<lparr>registers := ?regs\<rparr>)"
    using Suc by simp
  have step: "update_registers body base (Suc n) regs =
     (case body n of
        Parsed v \<Rightarrow> array_set ?regs (base + n) (Num (v AND 0xFFFF))
      | _ \<Rightarrow> ?regs)"
    by (cases "body n") (simp_all add: update_registers_def)
  have "\<And>v. slave_ok (dev\<lparr>registers := array_set ?regs (base + n) (Num (v AND 0xFFFF))\<rparr>)"
    using slave_ok_array_set[OF ok, of "base + n"] Suc.prems(2) mask_16_bounds
    by (simp add: registerCount_def)
  then show ?case
    using ok by (simp add: step split: form_field.splits)
qed

lemma post_slave_store_ok:
  assumes "store_ok sl"
  shows "store_ok (post_slave sl id_param group_param body)"
proof -
  have g: "\<And>g::int. \<not> (g < 1 \<or> 7 < g) \<Longrightarrow> nat ((g - 1) * 50) + 50 \<le> 500"
    by auto
  show ?thesis
    using assms store_ok_lookup[OF assms]
    by (auto simp: post_slave_def Let_def split: option.splits
        intro!: store_ok_upd update_registers_ok[where regs="registers dev" for dev, simplified] g)
qed

lemma on_frameTimeout_store_ok:
  "store_ok sl \<Longrightarrow> store_ok (snd (snd (on_frameTimeout t sl)))"
  using rtu_processRequest_store_ok[of sl "buffer t"]
  by (auto simp: on_frameTimeout_def split: prod.splits)

text \<open>
  Claim C8, as the code has it. Start-up creates an array of 500 zeros for each of the
  ten configured slaves and merges the persisted file; when the arrays the file holds
  for configured slaves have 500 elements of 16 bits each (as every file has that
  \<open>saveSlaves\<close> wrote from a store with the invariant), every slave of the store has
  500 registers of 16 bits. From a store with the invariant, a request on either
  transport, a firing of the RTU timer, a post of the web form, a clear of one slave or
  of all, and a reload of such a file lead to a store with the invariant.
\<close>

theorem store_invariant:
  "(saved_ok (create_slaves SLAVE_IDS REGISTER_COUNT Map.empty) file
      \<longrightarrow> store_ok (startServer file) \<and> dom (startServer file) = set SLAVE_IDS)
   \<and> (store_ok sl \<longrightarrow>
         store_ok (snd (tcp_processRequest sl frame))
       \<and> store_ok (snd (rtu_processRequest sl frame))
       \<and> store_ok (snd (snd (on_frameTimeout t sl)))
       \<and> store_ok (post_slave sl id_param group_param body)
       \<and> store_ok (clearSlave slaveId sl)
       \<and> store_ok (clearAllSlaves sl)
       \<and> (saved_ok sl file \<longrightarrow> store_ok (loadSlaves file sl)))"
  by (simp add: startServer_store_ok tcp_processRequest_store_ok rtu_processRequest_store_ok
      on_frameTimeout_store_ok post_slave_store_ok clearSlave_store_ok clearAllSlaves_store_ok
      loadSlaves_store_ok)

text \<open>
  After a start without a file: the store has the invariant, and it keeps it when the
  value 1234 is written to register 10 of slave 1 over TCP, when the web form posts
  70000 for the first register of group 2 of slave 1, and when slave 1 is cleared.
\<close>

theorem store_invariant_witness:
  "store_ok (startServer None)
   \<and> store_ok (snd (tcp_processRequest (startServer None)
                      [0, 1, 0, 0, 0, 6, 1, 6, 0, 10, 4, 210]))
   \<and> store_ok (post_slave (startServer None) (Some 1) (Some 2)
                 (\<lambda>i. if i = 0 then Parsed 70000 else Absent))
   \<and> store_ok (clearSlave 1 (startServer None))"
proof -
  have s: "saved_ok (create_slaves SLAVE_IDS REGISTER_COUNT Map.empty) None"
    by (simp add: saved_ok_def)
  have 0: "store_ok (startServer None)"
    using store_invariant[of None] s by blast
  show ?thesis
    using 0 store_invariant[of None "startServer None"
        "[0, 1, 0, 0, 0, 6, 1, 6, 0, 10, 4, 210]" t "Some 1" "Some 2"
        "\<lambda>i. if i = 0 then Parsed 70000 else Absent" 1]
    by blast
qed

text \<open>
  Claim C8 as stated fails at the reload of persisted data: \<open>loadSlaves\<close> assigns the
  array of the file as it is. With a file that holds the one-element array \<open>[70000]\<close>
  for slave 1, slave 1 has one register after start-up, and its value needs 17 bits.
\<close>

theorem store_invariant_broken_by_file:
  "startServer (Some [(1, \<lparr>registers = [Num 70000]\<rparr>)]) 1 = Some \<lparr>registers = [Num 70000]\<rparr>
   \<and> \<not> store_ok (startServer (Some [(1, \<lparr>registers = [Num 70000]\<rparr>)]))"
proof -
  have 1: "startServer (Some [(1, \<lparr>registers = [Num 70000]\<rparr>)]) 1
             = Some \<lparr>registers = [Num 70000]\<rparr>"
    by (simp add: startServer_def initialize_def loadSlaves_def create_slaves_def
        SLAVE_IDS_def REGISTER_COUNT_def)
  have "\<not> slave_ok \<lparr>registers = [Num 70000]\<rparr>"
    by (simp add: slave_ok_def)
  then have "\<not> store_ok (startServer (Some [(1, \<lparr>registers = [Num 70000]\<rparr>)]))"
    using 1 store_ok_lookup by blast
  then show ?thesis
    using 1 by simp
qed

section \<open>Function 0x10: the write loop\<close>


lemma write_loop_finishes:
  assumes "base + 2 * quantity \<le> length request"
  shows "fst (write_loop request base startAddr quantity i regs) = True"
  using assms
proof (induction request base startAddr quantity i regs rule: write_loop.induct)
  case (1 request base startAddr quantity i regs)
  show ?case
  proof (cases "i < quantity")
    case False
    then show ?thesis
      by (simp add: write_loop.simps)
  next
    case True
    have "base + i * 2 + 2 \<le> length request"
      using True "1.prems" by simp
    then obtain v where v: "readUInt16BE request (base + i * 2) = Some v"
      by (simp add: readUInt16BE_def)
    show ?thesis
      using True v "1.IH"[OF True v "1.prems"] by (subst write_loop.simps) simp
  qed
qed

lemma tcp_write_multiple_request:
  assumes f: "tcp_framed frame"
    and unit: "readUInt8 frame 6 = Some unitId" "sl unitId = Some dev"
    and fc: "readUInt8 frame 7 = Some 16"
  shows "tcp_processRequest sl frame =
           tcp_write_multiple sl dev (unat (frame ! 0) * 256 + unat (frame ! 1)) 0
             (unat (frame ! 6)) 16 (drop 7 frame)"
  using unit(2) readUInt8_Some[OF unit(1)] readUInt8_Some[OF fc]
  by (simp add: tcp_framed_processRequest[OF f])

lemma rtu_write_multiple_request:
  assumes f: "rtu_framed frame"
    and unit: "readUInt8 frame 0 = Some unitId" "sl unitId = Some dev"
    and fc: "readUInt8 frame 1 = Some 16"
  shows "rtu_processRequest sl frame = rtu_write_multiple sl dev (unat (frame ! 0)) 16 frame"
  using f unit(2) readUInt8_Some[OF unit(1)] readUInt8_Some[OF fc]
  by (simp add: rtu_framed_def rtu_processRequest_valid)

text \<open>The success response of function 0x10 on the TCP path.\<close>

lemma tcp_write_multiple_pdu:
  assumes "startAddr \<le> 65535" and "quantity \<le> 65535"
  shows "writeUInt8 (alloc 5) 16 0 \<bind> (\<lambda>p. writeUInt16BE p (Num (int startAddr)) 1
           \<bind> (\<lambda>p. writeUInt16BE p (Num (int quantity)) 3
           \<bind> tcp_response transactionId 0 unitId))
         = tcp_response transactionId 0 unitId (16 # be16 startAddr @ be16 quantity)"
  using assms
  by (simp add: alloc_5 writeUInt8_def be16_def of_int_div_256 of_int_mod_256)

lemma tcp_write_multiple_accepts:
  assumes f: "tcp_framed frame"
    and addr: "readUInt16BE frame 8 = Some startAddr"
    and qty: "readUInt16BE frame 10 = Some quantity"
    and bc: "readUInt8 frame 12 = Some (quantity * 2)"
    and len: "13 + quantity * 2 \<le> length frame"
  shows "tcp_write_multiple sl dev (unat (frame ! 0) * 256 + unat (frame ! 1)) 0
           (unat (frame ! 6)) 16 (drop 7 frame)
         = (Some (take 2 frame @ [0, 0, 0, 6, frame ! 6, 16] @ be16 startAddr @ be16 quantity),
            sl(unat (frame ! 6) \<mapsto>
                 dev\<lparr>registers :=
                       snd (write_loop (drop 7 frame) 6 startAddr quantity 0 (registers dev))\<rparr>))"
proof -
  let ?tid = "unat (frame ! 0) * 256 + unat (frame ! 1)" and ?unit = "unat (frame ! 6)"
  have len8: "8 \<le> length frame"
    using f by (simp add: tcp_framed_def)
  note h = tcp_header[OF len8]
  have pl: "\<not> length (drop 7 frame) < 6" "\<not> length (drop 7 frame) < 6 + quantity * 2"
    using len by simp_all
  have fin: "fst (write_loop (drop 7 frame) 6 startAddr quantity 0 (registers dev)) = True"
    using len by (intro write_loop_finishes) simp
  let ?pdu = "16 # be16 startAddr @ be16 quantity"
  have "tcp_response ?tid 0 ?unit ?pdu
          = Some (be16 ?tid @ [0, 0] @ be16 (length ?pdu + 1) @ [of_nat ?unit] @ ?pdu)"
    using readUInt16BE_bound[OF h(1)] readUInt8_bound[OF h(2)]
    by (intro tcp_response_eq) (simp_all add: be16_def)
  then have resp: "tcp_response ?tid 0 ?unit ?pdu
          = Some (take 2 frame @ [0, 0, 0, 6, frame ! 6, 16] @ be16 startAddr @ be16 quantity)"
    using readUInt16BE_be16[OF h(1)] len8 by (simp add: take_2 be16_def)
  obtain regs' where
    w: "write_loop (drop 7 frame) 6 startAddr quantity 0 (registers dev) = (True, regs')"
    using fin by (cases "write_loop (drop 7 frame) 6 startAddr quantity 0 (registers dev)") simp
  show ?thesis
    unfolding tcp_write_multiple_def
    using pl addr qty bc resp
      tcp_write_multiple_pdu[OF readUInt16BE_bound[OF addr] readUInt16BE_bound[OF qty]]
    by (simp add: readUInt16BE_drop readUInt8_drop Let_def w del: writeUInt16BE.simps)
qed

lemma tcp_write_multiple_mismatch:
  assumes f: "tcp_framed frame"
    and qty: "readUInt16BE frame 10 = Some quantity"
    and bc: "readUInt8 frame 12 = Some byteCount"
    and bad: "byteCount \<noteq> quantity * 2 \<or> length frame < 13 + byteCount"
  shows "tcp_write_multiple sl dev (unat (frame ! 0) * 256 + unat (frame ! 1)) 0
           (unat (frame ! 6)) (unat (frame ! 7)) (drop 7 frame)
         = (Some (tcp_exception frame 0x03), sl)"
proof -
  have l13: "12 < length frame"
    using readUInt8_Some[OF bc] by simp
  have l: "8 \<le> length frame" "\<not> length (drop 7 frame) < 6" "10 \<le> length frame"
    using l13 by simp_all
  obtain startAddr where "readUInt16BE frame 8 = Some startAddr"
    using l(3) by (simp add: readUInt16BE_def)
  moreover have "length (drop 7 frame) < 6 + byteCount \<longleftrightarrow> length frame < 13 + byteCount"
    by auto
  ultimately show ?thesis
    using l(2) qty bc bad tcp_exception_response[OF l(1), of "0x03"]
    by (auto simp: tcp_write_multiple_def readUInt16BE_drop readUInt8_drop)
qed

lemma rtu_write_multiple_mismatch:
  assumes qty: "readUInt16BE frame 4 = Some quantity"
    and bc: "readUInt8 frame 6 = Some byteCount"
    and bad: "byteCount \<noteq> quantity * 2 \<or> length frame \<noteq> 9 + byteCount"
  shows "rtu_write_multiple sl dev slaveId functionCode frame = (None, sl)"
  using assms by (auto simp: rtu_write_multiple_def split: option.splits)




section \<open>Function 0x10: the checks of the byte count\<close>

text \<open>
  Claim C6, as the code has it. A 0x10 request addressed to a configured slave: on the
  TCP path a byte count other than \<open>quantity * 2\<close>, or a frame with fewer bytes than the
  byte count declares, is answered with the exception response of code 0x03 and changes
  nothing, while a frame with the right byte count and at least that many bytes after
  it, also one with bytes to spare, is answered with the success response. On the RTU
  path a byte count other than \<open>quantity * 2\<close>, or a frame whose length is not exactly
  \<open>9 + byteCount\<close>, gets no response and changes nothing, and no response of the RTU
  path is an exception response of code 0x03.
\<close>

theorem write_multiple_validation:
  "(tcp_framed tcpFrame \<and> readUInt8 tcpFrame 6 = Some unitId \<and> sl unitId = Some dev
      \<and> readUInt8 tcpFrame 7 = Some 16 \<and> readUInt16BE tcpFrame 10 = Some quantity
      \<and> readUInt8 tcpFrame 12 = Some byteCount
      \<and> (byteCount \<noteq> quantity * 2 \<or> length tcpFrame < 13 + byteCount)
    \<longrightarrow> tcp_processRequest sl tcpFrame = (Some (tcp_exception tcpFrame 0x03), sl))
   \<and> (tcp_framed tcpFrame \<and> readUInt8 tcpFrame 6 = Some unitId \<and> sl unitId = Some dev
      \<and> readUInt8 tcpFrame 7 = Some 16 \<and> readUInt16BE tcpFrame 8 = Some startAddr
      \<and> readUInt16BE tcpFrame 10 = Some quantity
      \<and> readUInt8 tcpFrame 12 = Some (quantity * 2) \<and> 13 + quantity * 2 \<le> length tcpFrame
    \<longrightarrow> fst (tcp_processRequest sl tcpFrame)
          = Some (take 2 tcpFrame @ [0, 0, 0, 6, tcpFrame ! 6, 16]
                    @ be16 startAddr @ be16 quantity))
   \<and> (rtu_framed rtuFrame \<and> readUInt8 rtuFrame 0 = Some unitId \<and> sl unitId = Some dev
      \<and> readUInt8 rtuFrame 1 = Some 16 \<and> readUInt16BE rtuFrame 4 = Some quantity
      \<and> readUInt8 rtuFrame 6 = Some byteCount
      \<and> (byteCount \<noteq> quantity * 2 \<or> length rtuFrame \<noteq> 9 + byteCount)
    \<longrightarrow> rtu_processRequest sl rtuFrame = (None, sl))
   \<and> (fst (rtu_processRequest sl rtuFrame) = Some resp \<longrightarrow> rtu_exception_code resp \<noteq> Some 3)"
proof (intro conjI impI)
  assume a: "tcp_framed tcpFrame \<and> readUInt8 tcpFrame 6 = Some unitId \<and> sl unitId = Some dev
      \<and> readUInt8 tcpFrame 7 = Some 16 \<and> readUInt16BE tcpFrame 10 = Some quantity
      \<and> readUInt8 tcpFrame 12 = Some byteCount
      \<and> (byteCount \<noteq> quantity * 2 \<or> length tcpFrame < 13 + byteCount)"
  have fc: "unat (tcpFrame ! 7) = 16"
    using a readUInt8_Some[of tcpFrame 7 16] by simp
  have "tcp_processRequest sl tcpFrame =
           tcp_write_multiple sl dev (unat (tcpFrame ! 0) * 256 + unat (tcpFrame ! 1)) 0
             (unat (tcpFrame ! 6)) 16 (drop 7 tcpFrame)"
    using a by (intro tcp_write_multiple_request[of tcpFrame unitId sl dev]) simp_all
  then show "tcp_processRequest sl tcpFrame = (Some (tcp_exception tcpFrame 0x03), sl)"
    using a fc tcp_write_multiple_mismatch[of tcpFrame quantity byteCount sl dev] by simp
next
  assume a: "tcp_framed tcpFrame \<and> readUInt8 tcpFrame 6 = Some unitId \<and> sl unitId = Some dev
      \<and> readUInt8 tcpFrame 7 = Some 16 \<and> readUInt16BE tcpFrame 8 = Some startAddr
      \<and> readUInt16BE tcpFrame 10 = Some quantity
      \<and> readUInt8 tcpFrame 12 = Some (quantity * 2) \<and> 13 + quantity * 2 \<le> length tcpFrame"
  have "tcp_processRequest sl tcpFrame =
           tcp_write_multiple sl dev (unat (tcpFrame ! 0) * 256 + unat (tcpFrame ! 1)) 0
             (unat (tcpFrame ! 6)) 16 (drop 7 tcpFrame)"
    using a by (intro tcp_write_multiple_request[of tcpFrame unitId sl dev]) simp_all
  then show "fst (tcp_processRequest sl tcpFrame)
          = Some (take 2 tcpFrame @ [0, 0, 0, 6, tcpFrame ! 6, 16]
                    @ be16 startAddr @ be16 quantity)"
    using a tcp_write_multiple_accepts[of tcpFrame startAddr quantity sl dev] by simp
next
  assume a: "rtu_framed rtuFrame \<and> readUInt8 rtuFrame 0 = Some unitId \<and> sl unitId = Some dev
      \<and> readUInt8 rtuFrame 1 = Some 16 \<and> readUInt16BE rtuFrame 4 = Some quantity
      \<and> readUInt8 rtuFrame 6 = Some byteCount
      \<and> (byteCount \<noteq> quantity * 2 \<or> length rtuFrame \<noteq> 9 + byteCount)"
  have "rtu_processRequest sl rtuFrame
          = rtu_write_multiple sl dev (unat (rtuFrame ! 0)) 16 rtuFrame"
    using a by (intro rtu_write_multiple_request[of rtuFrame unitId sl dev]) simp_all
  then show "rtu_processRequest sl rtuFrame = (None, sl)"
    using a rtu_write_multiple_mismatch[of rtuFrame quantity byteCount sl dev] by simp
next
  assume "fst (rtu_processRequest sl rtuFrame) = Some resp"
  then show "rtu_exception_code resp \<noteq> Some 3"
    by (rule rtu_no_exception_3)
qed

text \<open>
  Slave 1 after start-up, one register at address 10. With byte count 3 for quantity 1
  the TCP path answers with code 0x03 and the RTU path does not answer. With byte count
  2 the TCP path answers with the success response.
\<close>

theorem write_multiple_validation_witness:
  "tcp_processRequest (startServer None) [0, 1, 0, 0, 0, 9, 1, 16, 0, 10, 0, 1, 3, 0x12, 0x34]
     = (Some [0, 1, 0, 0, 0, 3, 1, 0x90, 0x03], startServer None)
   \<and> fst (tcp_processRequest (startServer None)
             [0, 1, 0, 0, 0, 9, 1, 16, 0, 10, 0, 1, 2, 0x12, 0x34])
     = Some [0, 1, 0, 0, 0, 6, 1, 16, 0, 10, 0, 1]
   \<and> rtu_processRequest (startServer None) [1, 16, 0, 10, 0, 1, 3, 0x12, 0x34, 250, 77]
     = (None, startServer None)"
proof -
  let ?bad = "[0, 1, 0, 0, 0, 9, 1, 16, 0, 10, 0, 1, 3, 0x12, 0x34] :: buffer"
  let ?good = "[0, 1, 0, 0, 0, 9, 1, 16, 0, 10, 0, 1, 2, 0x12, 0x34] :: buffer"
  let ?rtu = "[1, 16, 0, 10, 0, 1, 3, 0x12, 0x34, 250, 77] :: buffer"
  let ?dev = "\<lparr>registers = replicate 500 (Num 0)\<rparr>"
  let ?sl = "startServer None"
  have b: "tcp_framed ?bad" "readUInt8 ?bad 6 = Some 1" "readUInt8 ?bad 7 = Some 16"
    "readUInt16BE ?bad 10 = Some 1" "readUInt8 ?bad 12 = Some 3" "(3::nat) \<noteq> 1 * 2"
    by (simp_all add: tcp_framed_def readUInt16BE_def readUInt8_def)
  have g: "tcp_framed ?good" "readUInt8 ?good 6 = Some 1" "readUInt8 ?good 7 = Some 16"
    "readUInt16BE ?good 8 = Some 10" "readUInt16BE ?good 10 = Some 1"
    "readUInt8 ?good 12 = Some (1 * 2)" "13 + 1 * 2 \<le> length ?good"
    by (simp_all add: tcp_framed_def readUInt16BE_def readUInt8_def)
  have r: "rtu_framed ?rtu" "readUInt8 ?rtu 0 = Some 1" "readUInt8 ?rtu 1 = Some 16"
    "readUInt16BE ?rtu 4 = Some 1" "readUInt8 ?rtu 6 = Some 3"
    by (simp_all add: rtu_framed_def readUInt16BE_def readUInt8_def crc_eval)
  have 1: "tcp_processRequest ?sl ?bad = (Some (tcp_exception ?bad 0x03), ?sl)"
    using write_multiple_validation[of ?bad 1 ?sl ?dev 1 3] b startServer_None(1) by blast
  have 2: "fst (tcp_processRequest ?sl ?good)
             = Some (take 2 ?good @ [0, 0, 0, 6, ?good ! 6, 16] @ be16 10 @ be16 1)"
    using write_multiple_validation[of ?good 1 ?sl ?dev 1 "1 * 2" 10] g startServer_None(1)
    by blast
  have 3: "rtu_processRequest ?sl ?rtu = (None, ?sl)"
    using write_multiple_validation[of ?bad 1 ?sl ?dev 1 3 10 ?rtu] r b(6) startServer_None(1)
    by blast
  show ?thesis
    using 1 2 3 by (simp add: tcp_exception_def be16_def)
qed

text \<open>
  Claim C6 as stated, where the frame length must match exactly and any mismatch of a
  0x10 request yields exception 0x03 on the TCP path, fails twice. A frame that is
  longer than its byte count declares is accepted: the TCP path only refuses a frame
  that is too short, and the request for one register at address 10 followed by one
  byte to spare is answered with the success response. And the unit is checked first:
  a request with byte count 3 for one register, sent to unit 99, is answered with code
  0x0B.
\<close>

theorem write_multiple_trailing_byte:
  "fst (tcp_processRequest (startServer None)
          [0, 1, 0, 0, 0, 10, 1, 16, 0, 10, 0, 1, 2, 0x12, 0x34, 0xFF])
     = Some [0, 1, 0, 0, 0, 6, 1, 16, 0, 10, 0, 1]
   \<and> tcp_processRequest (startServer None)
          [0, 1, 0, 0, 0, 9, 99, 16, 0, 10, 0, 1, 3, 0x12, 0x34]
     = (Some [0, 1, 0, 0, 0, 3, 99, 0x90, 0x0B], startServer None)"
proof -
  let ?long = "[0, 1, 0, 0, 0, 10, 1, 16, 0, 10, 0, 1, 2, 0x12, 0x34, 0xFF] :: buffer"
  let ?unknown = "[0, 1, 0, 0, 0, 9, 99, 16, 0, 10, 0, 1, 3, 0x12, 0x34] :: buffer"
  let ?dev = "\<lparr>registers = replicate 500 (Num 0)\<rparr>"
  let ?sl = "startServer None"
  have g: "tcp_framed ?long" "readUInt8 ?long 6 = Some 1" "readUInt8 ?long 7 = Some 16"
    "readUInt16BE ?long 8 = Some 10" "readUInt16BE ?long 10 = Some 1"
    "readUInt8 ?long 12 = Some (1 * 2)" "13 + 1 * 2 \<le> length ?long"
    by (simp_all add: tcp_framed_def readUInt16BE_def readUInt8_def)
  have "tcp_processRequest ?sl ?long =
           tcp_write_multiple ?sl ?dev (unat (?long ! 0) * 256 + unat (?long ! 1)) 0
             (unat (?long ! 6)) 16 (drop 7 ?long)"
    using g(1,2) startServer_None(1) g(3) by (rule tcp_write_multiple_request)
  then have "fst (tcp_processRequest ?sl ?long)
          = Some (take 2 ?long @ [0, 0, 0, 6, ?long ! 6, 16] @ be16 10 @ be16 1)"
    using tcp_write_multiple_accepts[OF g(1) g(4) g(5) g(6) g(7), of ?sl ?dev] by simp
  then have 1: "fst (tcp_processRequest ?sl ?long) = Some [0, 1, 0, 0, 0, 6, 1, 16, 0, 10, 0, 1]"
    by (simp add: be16_def)
  have "tcp_framed ?unknown" "readUInt8 ?unknown 6 = Some 99"
    by (simp_all add: tcp_framed_def readUInt16BE_def readUInt8_def)
  then have "tcp_processRequest ?sl ?unknown = (Some (tcp_exception ?unknown 0x0B), ?sl)"
    using startServer_None(2) by (rule tcp_unknown_unit)
  then have 2: "tcp_processRequest ?sl ?unknown
                  = (Some [0, 1, 0, 0, 0, 3, 99, 0x90, 0x0B], ?sl)"
    by (simp only: tcp_exception_def) simp
  show ?thesis
    using 1 2 by (rule conjI)
qed

section \<open>The framer of the RTU transport\<close>

lemma rtu_read_one_register:
  "rtu_processRequest (startServer None) [1, 3, 0, 0, 0, 1, 132, 10]
     = (Some [1, 3, 2, 0, 0, 184, 68], startServer None)"
proof -
  let ?f = "[1, 3, 0, 0, 0, 1, 132, 10] :: buffer"
  have v: "verifyCRC ?f = Some True"
    by (simp add: crc_eval)
  have l: "read_loop (replicate 500 (Num 0)) [1, 3, 2, 0, 0] 3 0 1 0 = Some [1, 3, 2, 0, 0]"
    by (simp add: read_loop.simps[of _ _ _ _ _ 0] read_loop.simps[of _ _ _ _ _ "Suc 0"]
        registerCount_def array_get_def)
  have c: "appendCRC [1, 3, 2, 0, 0] = Some [1, 3, 2, 0, 0, 184, 68]"
    by (simp add: appendCRC_def alloc_2 writeUInt8_def calculateCRC_def crc_shift_def crc_bits_8)
  show ?thesis
    using v startServer_None(1) l c
    by (simp add: rtu_processRequest_def readUInt8_def rtu_read_holding_def readUInt16BE_def
        alloc_5 writeUInt8_def Let_def)
qed

lemma on_data_chunks:
  "buffer (fold (\<lambda>data t. on_data t data) chunks t) = buffer t @ concat chunks"
  by (induction chunks arbitrary: t) (simp_all add: on_data_def)

text \<open>
  Claim C9. When the timer fires, \<open>processRequest\<close> is run on the accumulated buffer
  only when that has at least 8 bytes: a shorter buffer produces no bytes for the serial
  port and leaves the store as it is, a buffer of 8 bytes or more produces the response
  of \<open>processRequest\<close> (written when the port is open) and the store \<open>processRequest\<close>
  leaves. In every case the buffer is empty afterwards. The buffer a firing finds is
  the buffer before the data events followed by their chunks in order.
\<close>

theorem frame_timeout:
  "on_frameTimeout t sl =
     (if 8 \<le> length (buffer t)
      then (if port_isOpen t then fst (rtu_processRequest sl (buffer t)) else None,
            t\<lparr>buffer := []\<rparr>, snd (rtu_processRequest sl (buffer t)))
      else (None, t\<lparr>buffer := []\<rparr>, sl))
   \<and> buffer (fst (snd (on_frameTimeout t sl))) = []
   \<and> buffer (fold (\<lambda>data t. on_data t data) chunks t) = buffer t @ concat chunks"
  by (auto simp: on_frameTimeout_def alloc_def on_data_chunks split: prod.splits)

text \<open>
  An open port and an empty buffer after start-up. The four bytes \<open>01 07 41 E2\<close> have a
  correct CRC and \<open>processRequest\<close> would answer them with an exception response, but
  the timer finds fewer than 8 bytes: nothing is written and the buffer is emptied. The
  eight bytes of a read of register 0, arriving in two chunks, are answered.
\<close>

theorem frame_timeout_witness:
  "fst (rtu_processRequest (startServer None) [1, 7, 65, 226]) = Some [1, 135, 1, 130, 48]
   \<and> on_frameTimeout
        (on_data \<lparr>buffer = [], frameTimeout = False, port_isOpen = True\<rparr> [1, 7, 65, 226])
        (startServer None)
      = (None, \<lparr>buffer = [], frameTimeout = True, port_isOpen = True\<rparr>, startServer None)
   \<and> on_frameTimeout
        (fold (\<lambda>data t. on_data t data) [[1, 3, 0, 0], [0, 1, 132, 10]]
           \<lparr>buffer = [], frameTimeout = False, port_isOpen = True\<rparr>)
        (startServer None)
      = (Some [1, 3, 2, 0, 0, 184, 68],
         \<lparr>buffer = [], frameTimeout = True, port_isOpen = True\<rparr>, startServer None)"
proof -
  let ?t0 = "\<lparr>buffer = [], frameTimeout = False, port_isOpen = True\<rparr>"
  let ?sl = "startServer None"
  have v: "verifyCRC [1, 7, 65, 226] = Some True"
    by (simp add: crc_eval)
  have "calculateCRC [1, 135, 1] = 12418"
    by (simp add: calculateCRC_def crc_shift_def crc_bits_8)
  then have "appendCRC [1, 135, 1] = Some [1, 135, 1, 130, 48]"
    by (simp add: appendCRC_def alloc_2 writeUInt8_def)
  then have x: "rtu_createExceptionResponse 1 7 1 = Some [1, 135, 1, 130, 48]"
    by (simp add: rtu_createExceptionResponse_def)
  have e: "fst (rtu_processRequest ?sl [1, 7, 65, 226]) = Some [1, 135, 1, 130, 48]"
    using startServer_None(1) v x
    by (simp add: rtu_processRequest_def readUInt8_def)
  have 1: "on_frameTimeout (on_data ?t0 [1, 7, 65, 226]) ?sl
             = (None, \<lparr>buffer = [], frameTimeout = True, port_isOpen = True\<rparr>, ?sl)"
    using frame_timeout[of "on_data ?t0 [1, 7, 65, 226]" ?sl]
    by (simp add: on_data_def)
  let ?t2 = "fold (\<lambda>data t. on_data t data) [[1, 3, 0, 0], [0, 1, 132, 10]] ?t0"
  have t2: "?t2 = \<lparr>buffer = [1, 3, 0, 0, 0, 1, 132, 10], frameTimeout = True,
                    port_isOpen = True\<rparr>"
    by (simp add: on_data_def)
  have 2: "on_frameTimeout ?t2 ?sl
             = (Some [1, 3, 2, 0, 0, 184, 68],
                \<lparr>buffer = [], frameTimeout = True, port_isOpen = True\<rparr>, ?sl)"
    using frame_timeout[of ?t2 ?sl] rtu_read_one_register
    by (simp only: t2) simp
  show ?thesis
    using e 1 2 by simp
qed

end
